theory Spec2Isabelle
  imports Main "HOL-Library.Char_ord" "HOL-Library.List_Lexorder" "HOL-Library.Sublist"
begin

section \<open>Strings as the source uses them\<close>

text \<open>
  JavaScript strings are modelled as \<^typ>\<open>string\<close>, each \<^typ>\<open>char\<close> read as one
  UTF-16 code unit below 256.  \<open>split_nl\<close> is \<^verbatim>\<open>s.split('\n')\<close>: it always returns at
  least one line, and a text that ends in a newline has an empty last line.
\<close>

abbreviation NL :: char where
  "NL \<equiv> CHR 0x0A"

fun split_nl :: "string \<Rightarrow> string list" where
  "split_nl [] = [[]]"
| "split_nl (c # cs) =
     (if c = NL then [] # split_nl cs
      else (case split_nl cs of [] \<Rightarrow> [[c]] | l # ls \<Rightarrow> (c # l) # ls))"

text \<open>
  \<^verbatim>\<open>String.prototype.trim\<close> removes leading and trailing white space and line
  terminators; below code unit 256 these are TAB, LF, VT, FF, CR, SPACE and NBSP.
\<close>

definition is_ws :: "char \<Rightarrow> bool" where
  "is_ws c \<longleftrightarrow> c \<in> {CHR 0x09, CHR 0x0A, CHR 0x0B, CHR 0x0C, CHR 0x0D, CHR 0x20, CHR 0xA0}"

definition trim_end :: "string \<Rightarrow> string" where
  "trim_end s = rev (dropWhile is_ws (rev s))"

definition trim :: "string \<Rightarrow> string" where
  "trim s = trim_end (dropWhile is_ws s)"

text \<open>Decimal rendering of a length inside a template literal.\<close>

definition digit_char :: "nat \<Rightarrow> char" where
  "digit_char d =
     (if d = 0 then CHR ''0'' else if d = 1 then CHR ''1'' else if d = 2 then CHR ''2''
      else if d = 3 then CHR ''3'' else if d = 4 then CHR ''4'' else if d = 5 then CHR ''5''
      else if d = 6 then CHR ''6'' else if d = 7 then CHR ''7'' else if d = 8 then CHR ''8''
      else CHR ''9'')"

fun show_nat :: "nat \<Rightarrow> string" where
  "show_nat n =
     (if n < 10 then [digit_char n]
      else show_nat (n div 10) @ [digit_char (n mod 10)])"

declare show_nat.simps [simp del]

section \<open>The diff engine: generateSimpleDiff\<close>

text \<open>
  The header \<^verbatim>\<open>`@@ -1,${oldLines.length} +1,${newLines.length} @@\n`\<close>.
\<close>

definition hunk_header :: "nat \<Rightarrow> nat \<Rightarrow> string" where
  "hunk_header n m = ''@@ -1,'' @ show_nat n @ '' +1,'' @ show_nat m @ '' @@''"

text \<open>
  Reading an array at an index: \<^verbatim>\<open>xs[i]\<close> is \<^verbatim>\<open>undefined\<close> past the end, and a
  template literal renders \<^verbatim>\<open>undefined\<close> as the word.
\<close>

definition js_index :: "'a list \<Rightarrow> nat \<Rightarrow> 'a option" where
  "js_index xs i = (if i < length xs then Some (xs ! i) else None)"

fun tmpl :: "string option \<Rightarrow> string" where
  "tmpl None = ''undefined''"
| "tmpl (Some s) = s"

text \<open>One round of the loop \<^verbatim>\<open>for (let i = 0; i < maxLength; i++)\<close>.\<close>

definition diff_at :: "string list \<Rightarrow> string list \<Rightarrow> nat \<Rightarrow> string" where
  "diff_at oldLines newLines i =
     (let oldLine = js_index oldLines i; newLine = js_index newLines i
      in if oldLine = None then CHR ''+'' # tmpl newLine @ [NL]
         else if newLine = None then CHR ''-'' # tmpl oldLine @ [NL]
         else if oldLine \<noteq> newLine
           then CHR ''-'' # tmpl oldLine @ [NL] @ CHR ''+'' # tmpl newLine @ [NL]
         else CHR '' '' # tmpl oldLine @ [NL])"

definition generateSimpleDiff :: "string \<Rightarrow> string \<Rightarrow> string" where
  "generateSimpleDiff oldContent newContent =
     (let oldLines = split_nl oldContent;
          newLines = split_nl newContent;
          maxLength = max (length oldLines) (length newLines);
          result = hunk_header (length oldLines) (length newLines) @ [NL]
                   @ concat (map (diff_at oldLines newLines) [0..<maxLength])
      in if trim result = [] then ''No content changes detected'' else trim result)"

text \<open>
  The walk as the specification words it, on the two line sequences side by side: the
  list of emitted lines, without their terminators.
\<close>

fun spec_walk :: "string list \<Rightarrow> string list \<Rightarrow> string list" where
  "spec_walk [] [] = []"
| "spec_walk [] (n # ns) = (CHR ''+'' # n) # spec_walk [] ns"
| "spec_walk (l # ls) [] = (CHR ''-'' # l) # spec_walk ls []"
| "spec_walk (l # ls) (n # ns) =
     (if l \<noteq> n then [CHR ''-'' # l, CHR ''+'' # n] else [CHR '' '' # l]) @ spec_walk ls ns"

definition spec_diff_lines :: "string \<Rightarrow> string \<Rightarrow> string list" where
  "spec_diff_lines oldContent newContent =
     hunk_header (length (split_nl oldContent)) (length (split_nl newContent))
       # spec_walk (split_nl oldContent) (split_nl newContent)"

definition unlines :: "string list \<Rightarrow> string" where
  "unlines ls = concat (map (\<lambda>l. l @ [NL]) ls)"

section \<open>The store: sessions, checkpoints, file snapshots\<close>

text \<open>
  The three tables of \<^verbatim>\<open>initializeDatabase\<close>, one record per row, kept in insertion
  order.  Nullable columns are options.
\<close>

record Session =
  s_id :: string
  s_projectPath :: string
  s_projectName :: string
  s_totalCheckpoints :: int
  s_totalFileChanges :: int
  sessionStartTime :: string
  sessionEndTime :: "string option"
  lastPrompt :: "string option"
  lastPromptTime :: "string option"
  s_createdAt :: string
  s_updatedAt :: string

record Checkpoint =
  c_id :: string
  c_sessionId :: string
  c_projectPath :: string
  c_projectName :: string
  c_prompt :: string
  c_message :: string
  c_fileCount :: int
  c_totalSize :: int
  c_userPrompt :: "string option"
  c_timestamp :: string
  c_metadata :: string
  c_createdAt :: string

record FileSnapshot =
  rowid :: nat
  checkpointId :: string
  filePath :: string
  relativePath :: string
  content :: "string option"
  fsize :: int
  modifiedTime :: "string option"
  extension :: "string option"
  isDirectory :: int

record db =
  sessions :: "Session list"
  checkpoints :: "Checkpoint list"
  file_snapshots :: "FileSnapshot list"
  next_rowid :: nat

definition empty_db :: db where
  "empty_db = \<lparr>sessions = [], checkpoints = [], file_snapshots = [], next_rowid = 1\<rparr>"

datatype error = SqliteConstraint | WriteFailed | NotFound string

text \<open>
  \<^verbatim>\<open>DELETE FROM checkpoints WHERE ...\<close>.  The schema declares
  \<^verbatim>\<open>FOREIGN KEY (checkpointId) REFERENCES checkpoints(id) ON DELETE CASCADE\<close>, and the
  connection enforces foreign keys (the driver's default, never switched off by the code): every
  checkpoint row that is deleted takes the snapshot rows that reference it with it.  A
  statement that deletes no checkpoint row deletes no snapshot row.
\<close>

definition delete_checkpoints_where :: "(Checkpoint \<Rightarrow> bool) \<Rightarrow> db \<Rightarrow> db" where
  "delete_checkpoints_where P d =
     (let gone = map c_id (filter P (checkpoints d))
      in d\<lparr>checkpoints := filter (\<lambda>c. \<not> P c) (checkpoints d),
            file_snapshots := filter (\<lambda>f. checkpointId f \<notin> set gone) (file_snapshots d)\<rparr>)"

definition deleteCheckpoint :: "db \<Rightarrow> string \<Rightarrow> db" where
  "deleteCheckpoint d cid = delete_checkpoints_where (\<lambda>c. c_id c = cid) d"

text \<open>Referential integrity of \<^verbatim>\<open>file_snapshots.checkpointId\<close>, as the foreign key keeps it.\<close>

definition fk_snapshots :: "db \<Rightarrow> bool" where
  "fk_snapshots d \<longleftrightarrow>
     (\<forall>f \<in> set (file_snapshots d). checkpointId f \<in> c_id ` set (checkpoints d))"

text \<open>
  \<^verbatim>\<open>getCheckpointById\<close>: the row with that primary key, and its snapshot rows
  \<^verbatim>\<open>ORDER BY relativePath ASC\<close>.
\<close>

definition getCheckpointById :: "db \<Rightarrow> string \<Rightarrow> (Checkpoint \<times> FileSnapshot list) option" where
  "getCheckpointById d cid =
     (case find (\<lambda>c. c_id c = cid) (checkpoints d) of
        None \<Rightarrow> None
      | Some c \<Rightarrow>
          Some (c, sort_key relativePath (filter (\<lambda>f. checkpointId f = cid) (file_snapshots d))))"

text \<open>
  The query shared by restore and diff:
  \<^verbatim>\<open>SELECT ... FROM file_snapshots WHERE checkpointId = ? AND isDirectory = 0\<close>.
\<close>

definition getFiles :: "db \<Rightarrow> string \<Rightarrow> FileSnapshot list" where
  "getFiles d cid = filter (\<lambda>f. checkpointId f = cid \<and> isDirectory f = 0) (file_snapshots d)"

section \<open>The diff engine: diffCheckpoints\<close>

text \<open>
  A JavaScript \<^verbatim>\<open>Map\<close> keeps its keys in order of first insertion; setting a key that
  is present replaces its value in place.  It is an association list with distinct keys.
\<close>

fun map_set :: "('k \<times> 'v) list \<Rightarrow> 'k \<Rightarrow> 'v \<Rightarrow> ('k \<times> 'v) list" where
  "map_set [] k v = [(k, v)]"
| "map_set ((k', v') # m) k v = (if k' = k then (k, v) # m else (k', v') # map_set m k v)"

definition new_Map :: "('k \<times> 'v) list \<Rightarrow> ('k \<times> 'v) list" where
  "new_Map entries = fold (\<lambda>(k, v) m. map_set m k v) entries []"

definition map_get :: "('k \<times> 'v) list \<Rightarrow> 'k \<Rightarrow> 'v option" where
  "map_get m k = map_of m k"

definition map_keys :: "('k \<times> 'v) list \<Rightarrow> 'k list" where
  "map_keys m = map fst m"

text \<open>A \<^verbatim>\<open>Set\<close> built from an array keeps the first occurrence of each element, in order.\<close>

definition set_add :: "'a list \<Rightarrow> 'a \<Rightarrow> 'a list" where
  "set_add s x = (if x \<in> set s then s else s @ [x])"

definition new_Set :: "'a list \<Rightarrow> 'a list" where
  "new_Set xs = fold (\<lambda>x s. set_add s x) xs []"

datatype change_type = added | modified | deleted

record Change =
  ch_type :: change_type
  ch_file :: string
  ch_diff :: "string option"
  sizeBefore :: "int option"
  sizeAfter :: "int option"

text \<open>\<^verbatim>\<open>a || b\<close> on strings: the empty string is falsy.\<close>

definition str_or :: "string \<Rightarrow> string \<Rightarrow> string" where
  "str_or a b = (if a = [] then b else a)"

definition opt_str_or :: "string option \<Rightarrow> string \<Rightarrow> string" where
  "opt_str_or a b = (case a of None \<Rightarrow> b | Some s \<Rightarrow> str_or s b)"

text \<open>
  The body of \<^verbatim>\<open>for (const path of allPaths)\<close>: the changes pushed for one path, none or
  one.
\<close>

definition diff_path ::
  "(string \<times> FileSnapshot) list \<Rightarrow> (string \<times> FileSnapshot) list \<Rightarrow> string \<Rightarrow> Change list" where
  "diff_path currentFileMap previousFileMap path =
     (case (map_get currentFileMap path, map_get previousFileMap path) of
        (Some currentFile, None) \<Rightarrow>
          [\<lparr>ch_type = added, ch_file = str_or (relativePath currentFile) path, ch_diff = None,
            sizeBefore = None, sizeAfter = Some (fsize currentFile)\<rparr>]
      | (None, Some previousFile) \<Rightarrow>
          [\<lparr>ch_type = deleted, ch_file = str_or (relativePath previousFile) path, ch_diff = None,
            sizeBefore = Some (fsize previousFile), sizeAfter = None\<rparr>]
      | (Some currentFile, Some previousFile) \<Rightarrow>
          (if content currentFile \<noteq> content previousFile
           then [\<lparr>ch_type = modified, ch_file = str_or (relativePath currentFile) path,
                  ch_diff = Some (generateSimpleDiff (opt_str_or (content previousFile) [])
                                                  (opt_str_or (content currentFile) [])),
                  sizeBefore = Some (fsize previousFile), sizeAfter = Some (fsize currentFile)\<rparr>]
           else [])
      | (None, None) \<Rightarrow> [])"

record CheckpointRef =
  ref_id :: string
  ref_message :: string
  ref_timestamp :: string

record Summary =
  n_added :: nat
  n_modified :: nat
  n_deleted :: nat

record DiffResult =
  current :: CheckpointRef
  previous :: CheckpointRef
  changes :: "Change list"
  summary :: Summary

definition checkpoint_ref :: "Checkpoint \<Rightarrow> CheckpointRef" where
  "checkpoint_ref c =
     \<lparr>ref_id = c_id c, ref_message = str_or (c_message c) (c_prompt c),
      ref_timestamp = c_timestamp c\<rparr>"

definition file_map :: "db \<Rightarrow> string \<Rightarrow> (string \<times> FileSnapshot) list" where
  "file_map d cid = new_Map (map (\<lambda>f. (filePath f, f)) (getFiles d cid))"

definition all_paths :: "db \<Rightarrow> string \<Rightarrow> string \<Rightarrow> string list" where
  "all_paths d currentId previousId =
     new_Set (map_keys (file_map d currentId) @ map_keys (file_map d previousId))"

definition diffCheckpoints :: "db \<Rightarrow> string \<Rightarrow> string \<Rightarrow> error + DiffResult" where
  "diffCheckpoints d currentId previousId =
     (case (getCheckpointById d currentId, getCheckpointById d previousId) of
        (Some (cur, _), Some (prev, _)) \<Rightarrow>
          (let currentFileMap = file_map d currentId;
               previousFileMap = file_map d previousId;
               allPaths = all_paths d currentId previousId;
               chs = concat (map (diff_path currentFileMap previousFileMap) allPaths)
           in Inr \<lparr>current = checkpoint_ref cur, previous = checkpoint_ref prev,
                    changes = chs,
                    summary = \<lparr>n_added = length (filter (\<lambda>c. ch_type c = added) chs),
                               n_modified = length (filter (\<lambda>c. ch_type c = modified) chs),
                               n_deleted = length (filter (\<lambda>c. ch_type c = deleted) chs)\<rparr>\<rparr>)
      | _ \<Rightarrow> Inl (NotFound ''One or both checkpoints not found''))"

text \<open>
  The scenario of the specification: checkpoint \<open>A\<close> holds \<open>x.txt\<close> with \<open>hello\<close>;
  the later checkpoint \<open>B\<close> of the same project holds \<open>x.txt\<close> with \<open>hello world\<close> and a
  new file \<open>y.txt\<close> with \<open>new\<close>, every text ended by a newline.
\<close>

definition scenario_session :: Session where
  "scenario_session =
     \<lparr>s_id = ''session_1'', s_projectPath = ''/p'', s_projectName = ''p'',
      s_totalCheckpoints = 0, s_totalFileChanges = 3,
      sessionStartTime = ''2024-01-01T00:00:00.000Z'',
      sessionEndTime = Some ''2024-01-01T00:02:00.000Z'',
      lastPrompt = Some ''edit'', lastPromptTime = Some ''2024-01-01T00:00:00.000Z'',
      s_createdAt = ''2024-01-01T00:00:00.000Z'', s_updatedAt = ''2024-01-01T00:02:00.000Z''\<rparr>"

definition scenario_checkpoint :: "string \<Rightarrow> string \<Rightarrow> int \<Rightarrow> int \<Rightarrow> Checkpoint" where
  "scenario_checkpoint cid t n sz =
     \<lparr>c_id = cid, c_sessionId = ''session_1'', c_projectPath = ''/p'', c_projectName = ''p'',
      c_prompt = ''edit'', c_message = ''edit'', c_fileCount = n, c_totalSize = sz,
      c_userPrompt = Some ''edit'', c_timestamp = t, c_metadata = ''{}'', c_createdAt = t\<rparr>"

definition scenario_file :: "nat \<Rightarrow> string \<Rightarrow> string \<Rightarrow> string \<Rightarrow> FileSnapshot" where
  "scenario_file i cid name text =
     \<lparr>rowid = i, checkpointId = cid, filePath = ''/p/'' @ name, relativePath = name,
      content = Some text, fsize = int (length text),
      modifiedTime = Some ''2024-01-01T00:00:00.000Z'', extension = Some ''.txt'',
      isDirectory = 0\<rparr>"

definition scenario_db :: db where
  "scenario_db =
     \<lparr>sessions = [scenario_session],
      checkpoints = [scenario_checkpoint ''A'' ''2024-01-01T00:01:00.000Z'' 1 6,
                     scenario_checkpoint ''B'' ''2024-01-01T00:02:00.000Z'' 2 16],
      file_snapshots = [scenario_file 1 ''A'' ''x.txt'' ''hello\<newline>'',
                        scenario_file 2 ''B'' ''x.txt'' ''hello world\<newline>'',
                        scenario_file 3 ''B'' ''y.txt'' ''new\<newline>''],
      next_rowid = 4\<rparr>"

section \<open>The session tracker and checkpoint creation\<close>

text \<open>
  What the scanner \<^verbatim>\<open>FileUtils.getProjectFiles\<close> returns for a file.  The scanner itself
  is outside the modelled code; it enters as a parameter of the environment below.
\<close>

record FileInfo =
  fi_absolutePath :: string
  fi_relativePath :: string
  fi_content :: string
  fi_size :: int
  fi_lastModified :: string
  fi_extension :: string

text \<open>
  Everything a handler reads from outside the store during one event: the clock
  (\<^verbatim>\<open>new Date().toISOString()\<close>, read once by the handler and once inside
  \<^verbatim>\<open>createCheckpoint\<close>), the timestamp-and-random suffixes of fresh ids, the working
  directory of the process, \<^verbatim>\<open>path.basename\<close>, the scanner (\<open>None\<close> when it rejects),
  \<^verbatim>\<open>FileUtils.formatFileSize\<close>, whether running the snapshot insert for a given file
  throws (a full disk, an I/O error, a value the driver cannot bind), and whether the
  \<^verbatim>\<open>UPDATE\<close> of the session's counters that ends \<^verbatim>\<open>createCheckpoint\<close> throws.
\<close>

record env =
  now :: string
  checkpoint_now :: string
  session_suffix :: string
  checkpoint_suffix :: string
  process_cwd :: string
  basename :: "string \<Rightarrow> string"
  getProjectFiles :: "string \<Rightarrow> FileInfo list option"
  formatFileSize :: "int \<Rightarrow> string"
  insertFile_throws :: "FileInfo \<Rightarrow> bool"
  updateSession_throws :: bool

text \<open>The fields of the event payload that the handlers read.\<close>

record event_data =
  cwd :: "string option"
  actual_prompt :: "string option"
  possiblePrompt :: "string option"
  env_claude_prompt :: "string option"
  env_user_input :: "string option"

text \<open>The manager: the database handle and the cached \<^verbatim>\<open>currentSession\<close>.\<close>

record manager =
  store :: db
  currentSession :: "Session option"

definition new_manager :: manager where
  "new_manager = \<lparr>store = empty_db, currentSession = None\<rparr>"

text \<open>\<^verbatim>\<open>data.cwd || process.cwd()\<close>.\<close>

definition event_projectPath :: "env \<Rightarrow> event_data \<Rightarrow> string" where
  "event_projectPath e data = opt_str_or (cwd data) (process_cwd e)"

text \<open>The prompt text chosen by \<^verbatim>\<open>handleUserPromptSubmit\<close>, by priority.\<close>

definition long_prompt :: "string option \<Rightarrow> bool" where
  "long_prompt p = (case p of None \<Rightarrow> False | Some s \<Rightarrow> length s > 10)"

definition extract_prompt :: "event_data \<Rightarrow> string" where
  "extract_prompt data =
     (if (case actual_prompt data of None \<Rightarrow> False | Some s \<Rightarrow> length s > 0)
        then opt_str_or (actual_prompt data) []
      else if long_prompt (possiblePrompt data)
              \<and> possiblePrompt data \<noteq> Some ''User prompt submitted''
              \<and> possiblePrompt data \<noteq> Some ''UserPromptSubmit''
        then take 300 (opt_str_or (possiblePrompt data) [])
      else if long_prompt (env_claude_prompt data)
        then take 300 (opt_str_or (env_claude_prompt data) [])
      else if long_prompt (env_user_input data)
        then take 300 (opt_str_or (env_user_input data) [])
      else ''User prompt submitted'')"

text \<open>
  \<^verbatim>\<open>SELECT * FROM sessions WHERE projectPath = ? AND sessionEndTime IS NULL
  ORDER BY sessionStartTime DESC LIMIT 1\<close>: among the matching rows one with the greatest
  start time; where several share it, the model takes the earliest inserted.
\<close>

fun latest_session :: "Session list \<Rightarrow> Session option" where
  "latest_session [] = None"
| "latest_session (s # ss) =
     (case latest_session ss of
        None \<Rightarrow> Some s
      | Some t \<Rightarrow> if sessionStartTime s < sessionStartTime t then Some t else Some s)"

definition active_sessions :: "db \<Rightarrow> string \<Rightarrow> Session list" where
  "active_sessions d projectPath =
     filter (\<lambda>s. s_projectPath s = projectPath \<and> sessionEndTime s = None) (sessions d)"

text \<open>\<^verbatim>\<open>getActiveSession\<close> also stores a session it finds in \<^verbatim>\<open>currentSession\<close>.\<close>

definition getActiveSession :: "manager \<Rightarrow> string \<Rightarrow> manager \<times> Session option" where
  "getActiveSession m projectPath =
     (case latest_session (active_sessions (store m) projectPath) of
        None \<Rightarrow> (m, None)
      | Some session \<Rightarrow> (m\<lparr>currentSession := Some session\<rparr>, Some session))"

text \<open>\<^verbatim>\<open>INSERT INTO sessions\<close>: the id is the primary key.\<close>

definition insertSession :: "db \<Rightarrow> Session \<Rightarrow> error + db" where
  "insertSession d s =
     (if s_id s \<in> s_id ` set (sessions d) then Inl SqliteConstraint
      else Inr (d\<lparr>sessions := sessions d @ [s]\<rparr>))"

definition update_sessions :: "string \<Rightarrow> (Session \<Rightarrow> Session) \<Rightarrow> db \<Rightarrow> db" where
  "update_sessions sid f d =
     d\<lparr>sessions := map (\<lambda>s. if s_id s = sid then f s else s) (sessions d)\<rparr>"

text \<open>The session that \<^verbatim>\<open>handleUserPromptSubmit\<close> inserts when none is active.\<close>

definition new_session :: "env \<Rightarrow> string \<Rightarrow> string \<Rightarrow> string \<Rightarrow> Session" where
  "new_session e projectPath projectName promptText =
     \<lparr>s_id = ''session_'' @ session_suffix e, s_projectPath = projectPath,
      s_projectName = projectName, s_totalCheckpoints = 0, s_totalFileChanges = 0,
      sessionStartTime = now e, sessionEndTime = None, lastPrompt = Some promptText,
      lastPromptTime = Some (now e), s_createdAt = now e, s_updatedAt = now e\<rparr>"

text \<open>
  The refresh of an active session: the row gets
  \<^verbatim>\<open>SET lastPrompt = ?, lastPromptTime = ?, updatedAt = ?\<close>; on the object that was read
  from the store only \<open>lastPrompt\<close> and \<open>lastPromptTime\<close> are assigned.
\<close>

definition refresh_row :: "env \<Rightarrow> string \<Rightarrow> Session \<Rightarrow> Session" where
  "refresh_row e promptText s =
     s\<lparr>lastPrompt := Some promptText, lastPromptTime := Some (now e), s_updatedAt := now e\<rparr>"

definition refresh_object :: "env \<Rightarrow> string \<Rightarrow> Session \<Rightarrow> Session" where
  "refresh_object e promptText s =
     s\<lparr>lastPrompt := Some promptText, lastPromptTime := Some (now e)\<rparr>"

text \<open>
  Every handler returns the manager as the call leaves it, together with either the thrown
  error or the returned value.
\<close>

definition handleUserPromptSubmit :: "env \<Rightarrow> manager \<Rightarrow> event_data \<Rightarrow> manager \<times> (error + Session)" where
  "handleUserPromptSubmit e m data =
     (let projectPath = event_projectPath e data;
          projectName = basename e projectPath;
          promptText = extract_prompt data
      in case getActiveSession m projectPath of
           (m1, None) \<Rightarrow>
             (let session = new_session e projectPath projectName promptText
              in case insertSession (store m1) session of
                   Inl err \<Rightarrow> (m1, Inl err)
                 | Inr d \<Rightarrow> (\<lparr>store = d, currentSession = Some session\<rparr>, Inr session))
         | (m1, Some found) \<Rightarrow>
             (let d = update_sessions (s_id found) (refresh_row e promptText) (store m1);
                  session = refresh_object e promptText found
              in (\<lparr>store = d, currentSession = Some session\<rparr>, Inr session)))"

text \<open>
  \<^verbatim>\<open>generateCheckpointMessage\<close>: the prompt, unless it is missing, empty or the
  placeholder, followed by the file count and the formatted size.
\<close>

definition generateCheckpointMessage :: "env \<Rightarrow> Session \<Rightarrow> nat \<Rightarrow> int \<Rightarrow> string" where
  "generateCheckpointMessage e session fileCount totalSize =
     (let size = formatFileSize e totalSize;
          counts = '' ('' @ show_nat fileCount @ '' files, '' @ size @ '')''
      in if opt_str_or (lastPrompt session) [] \<noteq> []
            \<and> lastPrompt session \<noteq> Some ''User prompt submitted''
         then opt_str_or (lastPrompt session) [] @ counts
         else ''User prompt submitted'' @ counts)"

text \<open>
  \<^verbatim>\<open>INSERT INTO checkpoints\<close>: the id is the primary key and \<open>sessionId\<close> references
  \<open>sessions(id)\<close>.
\<close>

definition insertCheckpoint :: "db \<Rightarrow> Checkpoint \<Rightarrow> error + db" where
  "insertCheckpoint d c =
     (if c_id c \<in> c_id ` set (checkpoints d) then Inl SqliteConstraint
      else if c_sessionId c \<notin> s_id ` set (sessions d) then Inl SqliteConstraint
      else Inr (d\<lparr>checkpoints := checkpoints d @ [c]\<rparr>))"

text \<open>
  \<^verbatim>\<open>INSERT INTO file_snapshots\<close> for one scanned file: the row id is assigned by
  \<^verbatim>\<open>AUTOINCREMENT\<close>, \<open>checkpointId\<close> references \<open>checkpoints(id)\<close>, and \<open>isDirectory\<close>
  is always written as 0.
\<close>

definition snapshot_row :: "string \<Rightarrow> nat \<Rightarrow> FileInfo \<Rightarrow> FileSnapshot" where
  "snapshot_row cid n f =
     \<lparr>rowid = n, checkpointId = cid, filePath = fi_absolutePath f,
      relativePath = fi_relativePath f, content = Some (fi_content f), fsize = fi_size f,
      modifiedTime = Some (fi_lastModified f), extension = Some (fi_extension f),
      isDirectory = 0\<rparr>"

definition insertFile :: "env \<Rightarrow> db \<Rightarrow> string \<Rightarrow> FileInfo \<Rightarrow> error + db" where
  "insertFile e d cid f =
     (if insertFile_throws e f then Inl WriteFailed
      else if cid \<notin> c_id ` set (checkpoints d) then Inl SqliteConstraint
      else Inr (d\<lparr>file_snapshots := file_snapshots d @ [snapshot_row cid (next_rowid d) f],
                 next_rowid := next_rowid d + 1\<rparr>))"

text \<open>
  The loop \<^verbatim>\<open>for (const file of files) insertFile.run(...)\<close>.  The statements run outside
  any transaction: when one throws, the rows written before it stay.
\<close>

fun insertFiles :: "env \<Rightarrow> string \<Rightarrow> FileInfo list \<Rightarrow> db \<Rightarrow> db \<times> error option" where
  "insertFiles e cid [] d = (d, None)"
| "insertFiles e cid (f # fs) d =
     (case insertFile e d cid f of
        Inl err \<Rightarrow> (d, Some err)
      | Inr d' \<Rightarrow> insertFiles e cid fs d')"

record CreatedCheckpoint =
  cc_id :: string
  cc_sessionId :: string
  cc_projectPath :: string
  cc_projectName :: string
  cc_message :: string
  cc_fileCount :: int
  cc_totalSize :: int
  cc_userPrompt :: "string option"
  cc_timestamp :: string

text \<open>
  The values \<^verbatim>\<open>createCheckpoint\<close> computes from the session and the scanned files:
  the id, the row it inserts and the object it returns.
\<close>

definition new_checkpoint_id :: "env \<Rightarrow> string" where
  "new_checkpoint_id e = ''checkpoint_'' @ checkpoint_suffix e"

definition totalSize_of :: "FileInfo list \<Rightarrow> int" where
  "totalSize_of files = sum_list (map fi_size files)"

definition checkpoint_row :: "env \<Rightarrow> Session \<Rightarrow> FileInfo list \<Rightarrow> Checkpoint" where
  "checkpoint_row e session files =
     \<lparr>c_id = new_checkpoint_id e, c_sessionId = s_id session,
      c_projectPath = s_projectPath session, c_projectName = s_projectName session,
      c_prompt = opt_str_or (lastPrompt session) ''User prompt submitted'',
      c_message = generateCheckpointMessage e session (length files) (totalSize_of files),
      c_fileCount = int (length files), c_totalSize = totalSize_of files,
      c_userPrompt = Some (opt_str_or (lastPrompt session) ''User prompt submitted''),
      c_timestamp = checkpoint_now e, c_metadata = ''{}'', c_createdAt = checkpoint_now e\<rparr>"

definition created_checkpoint :: "env \<Rightarrow> Session \<Rightarrow> FileInfo list \<Rightarrow> CreatedCheckpoint" where
  "created_checkpoint e session files =
     \<lparr>cc_id = new_checkpoint_id e, cc_sessionId = s_id session,
      cc_projectPath = s_projectPath session, cc_projectName = s_projectName session,
      cc_message = generateCheckpointMessage e session (length files) (totalSize_of files),
      cc_fileCount = int (length files), cc_totalSize = totalSize_of files,
      cc_userPrompt = lastPrompt session, cc_timestamp = checkpoint_now e\<rparr>"

text \<open>
  \<^verbatim>\<open>UPDATE sessions SET totalFileChanges = totalFileChanges + ?, updatedAt = ?
  WHERE id = ?\<close>.
\<close>

definition add_file_changes :: "env \<Rightarrow> string \<Rightarrow> nat \<Rightarrow> db \<Rightarrow> db" where
  "add_file_changes e sid n d =
     update_sessions sid
       (\<lambda>s. s\<lparr>s_totalFileChanges := s_totalFileChanges s + int n,
               s_updatedAt := checkpoint_now e\<rparr>) d"

text \<open>
  \<^verbatim>\<open>createCheckpoint\<close>.  The whole body is inside \<^verbatim>\<open>try\<close>; the \<^verbatim>\<open>catch\<close> logs and
  returns \<^verbatim>\<open>null\<close>, leaving the store as the failing statement found it.
\<close>

definition createCheckpoint :: "env \<Rightarrow> db \<Rightarrow> Session \<Rightarrow> db \<times> CreatedCheckpoint option" where
  "createCheckpoint e d session =
     (case getProjectFiles e (s_projectPath session) of
        None \<Rightarrow> (d, None)
      | Some files \<Rightarrow>
          if length files = 0 then (d, None)
          else
            (case insertCheckpoint d (checkpoint_row e session files) of
               Inl err \<Rightarrow> (d, None)
             | Inr d1 \<Rightarrow>
                 (case insertFiles e (new_checkpoint_id e) files d1 of
                    (d2, Some err) \<Rightarrow> (d2, None)
                  | (d2, None) \<Rightarrow>
                      if updateSession_throws e then (d2, None)
                      else (add_file_changes e (s_id session) (length files) d2,
                            Some (created_checkpoint e session files)))))"

text \<open>
  \<^verbatim>\<open>UPDATE sessions SET sessionEndTime = ?, updatedAt = ? WHERE id = ?\<close>.
\<close>

definition end_session :: "env \<Rightarrow> string \<Rightarrow> db \<Rightarrow> db" where
  "end_session e sid d =
     update_sessions sid (\<lambda>s. s\<lparr>sessionEndTime := Some (now e), s_updatedAt := now e\<rparr>) d"

text \<open>
  \<^verbatim>\<open>handleStop\<close>.  The store is asked for the project's active session only when no
  session is cached; a cached session is used whatever the event's project path is.
\<close>

definition load_session :: "env \<Rightarrow> manager \<Rightarrow> event_data \<Rightarrow> manager" where
  "load_session e m data =
     (if currentSession m = None
      then fst (getActiveSession m (event_projectPath e data))
      else m)"

definition handleStop :: "env \<Rightarrow> manager \<Rightarrow> event_data \<Rightarrow> manager \<times> CreatedCheckpoint option" where
  "handleStop e m data =
     (let m1 = load_session e m data
      in case currentSession m1 of
           None \<Rightarrow> (m1, None)
         | Some session \<Rightarrow>
             (case createCheckpoint e (store m1) session of
                (d1, checkpoint) \<Rightarrow>
                  (\<lparr>store = end_session e (s_id session) d1, currentSession = None\<rparr>,
                   checkpoint)))"

datatype event_result =
    SessionResult Session
  | CheckpointResult "CreatedCheckpoint option"
  | NoResult

definition handleClaudeEvent ::
  "env \<Rightarrow> manager \<Rightarrow> string \<Rightarrow> event_data \<Rightarrow> manager \<times> (error + event_result)" where
  "handleClaudeEvent e m eventType data =
     (if eventType = ''UserPromptSubmit'' then
        (case handleUserPromptSubmit e m data of
           (m', Inl err) \<Rightarrow> (m', Inl err)
         | (m', Inr session) \<Rightarrow> (m', Inr (SessionResult session)))
      else if eventType = ''Stop'' then
        (case handleStop e m data of (m', checkpoint) \<Rightarrow> (m', Inr (CheckpointResult checkpoint)))
      else (m, Inr NoResult))"

text \<open>A sequence of events, each with the environment it meets, handled one after another.\<close>

fun run_events :: "manager \<Rightarrow> (env \<times> string \<times> event_data) list \<Rightarrow> manager" where
  "run_events m [] = m"
| "run_events m ((e, eventType, data) # evs) =
     run_events (fst (handleClaudeEvent e m eventType data)) evs"

text \<open>The snapshot rows of one checkpoint, in insertion order.\<close>

definition rows_of :: "db \<Rightarrow> string \<Rightarrow> FileSnapshot list" where
  "rows_of d cid = filter (\<lambda>r. checkpointId r = cid) (file_snapshots d)"


text \<open>At most one open session per project path: the open rows have distinct paths.\<close>

definition one_active :: "db \<Rightarrow> bool" where
  "one_active d \<longleftrightarrow>
     distinct (map s_projectPath (filter (\<lambda>s. sessionEndTime s = None) (sessions d)))"

section \<open>The restore engine\<close>

text \<open>
  The file system that \<^verbatim>\<open>mkdir\<close> and \<^verbatim>\<open>writeFile\<close> act on: a tree of directories
  and regular files, given by the node at each path.  A path is the list of its
  components below the root, and the root is a directory.  Snapshot paths are absolute (the
  scanner's \<open>absolutePath\<close>); \<open>path_of\<close> splits one at the separators, ignoring empty
  components, and \<^verbatim>\<open>dirname\<close> drops the last component.  Whether an operation fails
  depends only on the file system it meets.
\<close>

datatype node = File string | Dir

type_synonym filesystem = "string list \<Rightarrow> node option"

datatype fs_error = EEXIST | EISDIR | ENOENT

fun split_on :: "char \<Rightarrow> string \<Rightarrow> string list" where
  "split_on sep [] = [[]]"
| "split_on sep (c # cs) =
     (if c = sep then [] # split_on sep cs
      else (case split_on sep cs of [] \<Rightarrow> [[c]] | l # ls \<Rightarrow> (c # l) # ls))"

definition path_of :: "string \<Rightarrow> string list" where
  "path_of s = filter (\<lambda>c. c \<noteq> []) (split_on CHR ''/'' s)"

definition dirname :: "string \<Rightarrow> string list" where
  "dirname s = butlast (path_of s)"

definition node_at :: "filesystem \<Rightarrow> string list \<Rightarrow> node option" where
  "node_at fs p = (if p = [] then Some Dir else fs p)"

definition is_file :: "node option \<Rightarrow> bool" where
  "is_file n = (case n of Some (File c) \<Rightarrow> True | _ \<Rightarrow> False)"

text \<open>
  \<^verbatim>\<open>mkdir(dir, { recursive: true })\<close>: fails when the directory or one of its ancestors
  is a regular file; otherwise every missing directory on the way is created and existing
  ones are left alone.
\<close>

definition mkdir :: "filesystem \<Rightarrow> string list \<Rightarrow> fs_error + filesystem" where
  "mkdir fs dir =
     (if list_ex (\<lambda>q. is_file (node_at fs q)) (prefixes dir) then Inl EEXIST
      else Inr (\<lambda>q. if q \<noteq> [] \<and> prefix q dir then Some Dir else fs q))"

text \<open>
  \<^verbatim>\<open>writeFile(path, content, 'utf-8')\<close>: fails on a directory and where the parent is
  not a directory; otherwise the file is created or overwritten.
\<close>

definition writeFile :: "filesystem \<Rightarrow> string list \<Rightarrow> string \<Rightarrow> fs_error + filesystem" where
  "writeFile fs p text =
     (if node_at fs p = Some Dir then Inl EISDIR
      else if node_at fs (butlast p) \<noteq> Some Dir then Inl ENOENT
      else Inr (fs(p \<mapsto> File text)))"

definition error_text :: "fs_error \<Rightarrow> string" where
  "error_text err =
     (case err of EEXIST \<Rightarrow> ''Error: EEXIST'' | EISDIR \<Rightarrow> ''Error: EISDIR''
      | ENOENT \<Rightarrow> ''Error: ENOENT'')"

text \<open>
  The state of the loop in \<^verbatim>\<open>restoreCheckpoint\<close>: the file system, \<open>filesRestored\<close> and
  \<open>errors\<close>.  One round: make the directory, then write the file unless the stored content
  is \<^verbatim>\<open>null\<close>; a failure of either is caught and recorded.
\<close>

type_synonym restore_state = "filesystem \<times> nat \<times> string list"

definition restore_file :: "FileSnapshot \<Rightarrow> restore_state \<Rightarrow> restore_state" where
  "restore_file f st =
     (case st of (fs, filesRestored, errors) \<Rightarrow>
        (case mkdir fs (dirname (filePath f)) of
           Inl err \<Rightarrow> (fs, filesRestored, errors @ [filePath f @ '': '' @ error_text err])
         | Inr fs1 \<Rightarrow>
             (case content f of
                None \<Rightarrow> (fs1, filesRestored, errors)
              | Some text \<Rightarrow>
                  (case writeFile fs1 (path_of (filePath f)) text of
                     Inl err \<Rightarrow> (fs1, filesRestored, errors @ [filePath f @ '': '' @ error_text err])
                   | Inr fs2 \<Rightarrow> (fs2, filesRestored + 1, errors)))))"

record RestoreResult =
  filesRestored :: nat
  totalFiles :: nat
  errors :: "string list"
  checkpoint :: CheckpointRef

definition restoreCheckpoint :: "filesystem \<Rightarrow> db \<Rightarrow> string \<Rightarrow> filesystem \<times> (error + RestoreResult)" where
  "restoreCheckpoint fs d cid =
     (case getCheckpointById d cid of
        None \<Rightarrow> (fs, Inl (NotFound ''Checkpoint not found''))
      | Some (c, _) \<Rightarrow>
          (let files = getFiles d cid in
           case fold restore_file files (fs, 0, []) of
             (fs', n, errs) \<Rightarrow>
               (fs', Inr \<lparr>filesRestored = n, totalFiles = length files, errors = errs,
                          checkpoint = checkpoint_ref c\<rparr>)))"

section \<open>Example environments\<close>

text \<open>
  A small concrete world for running the handlers: project \<open>/a\<close> holds the given files,
  every other project is empty.
\<close>

definition example_file :: "string \<Rightarrow> string \<Rightarrow> FileInfo" where
  "example_file name text =
     \<lparr>fi_absolutePath = ''/a/'' @ name, fi_relativePath = name, fi_content = text,
      fi_size = int (length text), fi_lastModified = ''2024-01-01T00:00:00.000Z'',
      fi_extension = ''.txt''\<rparr>"

definition example_env :: "string \<Rightarrow> string \<Rightarrow> FileInfo list \<Rightarrow> (FileInfo \<Rightarrow> bool) \<Rightarrow> env" where
  "example_env t sfx files throws =
     \<lparr>now = t, checkpoint_now = t, session_suffix = sfx, checkpoint_suffix = sfx,
      process_cwd = ''/'',
      basename = (\<lambda>p. case rev (path_of p) of [] \<Rightarrow> [] | x # _ \<Rightarrow> x),
      getProjectFiles = (\<lambda>p. if p = ''/a'' then Some files else Some []),
      formatFileSize = (\<lambda>n. show_nat (nat n) @ '' B''),
      insertFile_throws = throws, updateSession_throws = False\<rparr>"

definition example_data :: "string \<Rightarrow> string \<Rightarrow> event_data" where
  "example_data p prompt =
     \<lparr>cwd = Some p, actual_prompt = Some prompt, possiblePrompt = Some prompt,
      env_claude_prompt = None, env_user_input = None\<rparr>"

text \<open>
  The snapshot rows of a list of files, numbered from a given row id: what the insert loop
  appends when no statement throws.
\<close>

primrec snapshot_rows :: "string \<Rightarrow> nat \<Rightarrow> FileInfo list \<Rightarrow> FileSnapshot list" where
  "snapshot_rows cid n [] = []"
| "snapshot_rows cid n (f # fs) = snapshot_row cid n f # snapshot_rows cid (Suc n) fs"

text \<open>The session that a first prompt in project \<open>/a\<close> opens at time \<open>t1\<close>.\<close>

definition session_a :: Session where
  "session_a = new_session (example_env ''t1'' ''1'' [] (\<lambda>f. False)) ''/a'' ''a'' ''fix it''"

definition manager_a :: manager where
  "manager_a =
     \<lparr>store = empty_db\<lparr>sessions := [session_a]\<rparr>, currentSession = Some session_a\<rparr>"

text \<open>
  Later, work stops; project \<open>/a\<close> then holds \<open>x.txt\<close> and \<open>y.txt\<close>.  In \<open>env_stop\<close>
  every insert succeeds; in \<open>env_stop_failing\<close> the insert of the row for \<open>y.txt\<close> throws.
\<close>

definition files_a :: "FileInfo list" where
  "files_a = [example_file ''x.txt'' ''hello'', example_file ''y.txt'' ''new'']"

definition env_stop :: env where
  "env_stop = example_env ''t2'' ''2'' files_a (\<lambda>f. False)"

definition env_stop_failing :: env where
  "env_stop_failing = example_env ''t2'' ''2'' files_a (\<lambda>f. fi_relativePath f = ''y.txt'')"

text \<open>The environment of the first prompt, and one in which project \<open>/a\<close> holds no file.\<close>

definition env_first :: env where
  "env_first = example_env ''t1'' ''1'' [] (\<lambda>f. False)"

definition env_stop_empty :: env where
  "env_stop_empty = example_env ''t2'' ''2'' [] (\<lambda>f. False)"

section \<open>Notions for the restore engine\<close>

text \<open>The effect of one round of the restore loop on the file system alone.\<close>

definition restore_fs :: "FileSnapshot \<Rightarrow> filesystem \<Rightarrow> filesystem" where
  "restore_fs f fs = fst (restore_file f (fs, 0, []))"

text \<open>
  The rounds of the loop that neither write a file nor record an error: the directory was
  made and the stored content is \<^verbatim>\<open>null\<close>.
\<close>

fun null_rounds :: "FileSnapshot list \<Rightarrow> filesystem \<Rightarrow> nat" where
  "null_rounds [] fs = 0"
| "null_rounds (f # files) fs =
     (case mkdir fs (dirname (filePath f)) of
        Inl err \<Rightarrow> null_rounds files fs
      | Inr fs1 \<Rightarrow>
          (case content f of
             None \<Rightarrow> Suc (null_rounds files fs1)
           | Some text \<Rightarrow> null_rounds files (restore_fs f fs)))"

text \<open>
  The kind of a node, and growth of a file system: every path that exists keeps its kind
  (a directory stays a directory, a file stays a file, whatever its content).
\<close>

definition kind :: "node option \<Rightarrow> node option" where
  "kind n = (case n of Some (File c) \<Rightarrow> Some (File []) | other \<Rightarrow> other)"


text \<open>A checkpoint with one snapshot row whose stored content is \<^verbatim>\<open>null\<close>.\<close>

definition null_row :: FileSnapshot where
  "null_row = (scenario_file 4 ''N'' ''n.txt'' [])\<lparr>content := None\<rparr>"

definition null_db :: db where
  "null_db =
     scenario_db\<lparr>checkpoints := checkpoints scenario_db
                    @ [scenario_checkpoint ''N'' ''2024-01-01T00:03:00.000Z'' 1 0],
                 file_snapshots := file_snapshots scenario_db @ [null_row],
                 next_rowid := 5\<rparr>"

text \<open>An environment like \<open>env_stop_empty\<close>, except that the scan is rejected.\<close>

definition env_stop_rejected :: env where
  "env_stop_rejected = env_stop_empty\<lparr>getProjectFiles := (\<lambda>p. None)\<rparr>"





section \<open>Properties of the diff text\<close>

lemma js_index_Suc [simp]: "js_index (x # xs) (Suc i) = js_index xs i"
  by (simp add: js_index_def)

lemma js_index_0 [simp]: "js_index (x # xs) 0 = Some x"
  by (simp add: js_index_def)

lemma js_index_Nil [simp]: "js_index [] i = None"
  by (simp add: js_index_def)

lemma diff_at_Cons_Cons: "diff_at (a # ls) (b # ns) (Suc i) = diff_at ls ns i"
  by (simp add: diff_at_def)

lemma diff_at_Nil_Cons: "diff_at [] (b # ns) (Suc i) = diff_at [] ns i"
  by (simp add: diff_at_def)

lemma diff_at_Cons_Nil: "diff_at (a # ls) [] (Suc i) = diff_at ls [] i"
  by (simp add: diff_at_def)

lemma unlines_Cons: "unlines (l # ls) = l @ NL # unlines ls"
  by (simp add: unlines_def)

lemma unlines_append: "unlines (xs @ ys) = unlines xs @ unlines ys"
  by (simp add: unlines_def)

text \<open>The index loop of the source emits exactly the lines of the side-by-side walk.\<close>

lemma walk_loop:
  "concat (map (diff_at ls ns) [0..<max (length ls) (length ns)]) = unlines (spec_walk ls ns)"
proof (induction ls ns rule: spec_walk.induct)
  case 1
  show ?case by (simp add: unlines_def)
next
  case (2 n ns)
  then show ?case
    by (simp add: map_upt_Suc diff_at_Nil_Cons unlines_Cons del: upt_Suc) (simp add: diff_at_def)
next
  case (3 l ls)
  then show ?case
    by (simp add: map_upt_Suc diff_at_Cons_Nil unlines_Cons del: upt_Suc) (simp add: diff_at_def)
next
  case (4 l ls n ns)
  then show ?case
    by (simp add: map_upt_Suc diff_at_Cons_Cons unlines_Cons unlines_append del: upt_Suc)
       (simp add: diff_at_def unlines_def)
qed

lemma trim_end_Cons: "\<not> is_ws c \<Longrightarrow> trim_end (c # s) = c # trim_end s"
  by (induction s rule: rev_induct) (auto simp: trim_end_def)

lemma trim_not_ws: "\<not> is_ws c \<Longrightarrow> trim (c # s) = c # trim_end s"
  by (simp add: trim_def trim_end_Cons)

lemma hunk_header_Cons: "hunk_header n m = CHR ''@'' # tl (hunk_header n m)"
  by (simp add: hunk_header_def)

lemma show_nat_digit: "n < 10 \<Longrightarrow> show_nat n = [digit_char n]"
  by (simp add: show_nat.simps)

text \<open>Because the header starts with \<open>@\<close>, \<^verbatim>\<open>trim()\<close> only cuts at the end, and the
  fallback text \<open>No content changes detected\<close> is never returned.\<close>

lemma generateSimpleDiff_eq:
  "generateSimpleDiff oldContent newContent
     = trim_end (unlines (spec_diff_lines oldContent newContent))"
proof -
  let ?h = "hunk_header (length (split_nl oldContent)) (length (split_nl newContent))"
  let ?w = "unlines (spec_walk (split_nl oldContent) (split_nl newContent))"
  let ?r = "?h @ [NL] @ ?w"
  have at: "\<not> is_ws CHR ''@''" by (simp add: is_ws_def)
  have "?r = CHR ''@'' # (tl ?h @ [NL] @ ?w)"
    using hunk_header_Cons [of "length (split_nl oldContent)" "length (split_nl newContent)"]
    by (metis append_Cons)
  then have t: "trim ?r = trim_end ?r" "trim ?r \<noteq> []"
    using trim_not_ws [OF at] trim_end_Cons [OF at] by (metis, metis list.distinct(1))
  have u: "unlines (spec_diff_lines oldContent newContent) = ?r"
    by (simp add: spec_diff_lines_def unlines_Cons)
  show ?thesis
    unfolding generateSimpleDiff_def Let_def walk_loop u using t by simp
qed

lemmas diff_eval = spec_diff_lines_def unlines_def trim_end_def is_ws_def hunk_header_def
  show_nat_digit digit_char_def

text \<open>
  C8, as amended.  For all contents, the diff string is the hunk header line followed by
  the lines of the position-by-position walk (\<open>+line\<close> for an index only in the new
  sequence, \<open>-line\<close> for an index only in the old one, \<open>-old\<close> then \<open>+new\<close> where the
  lines differ, a space and the line where they agree), each line ended by a newline, and
  then cut by \<^verbatim>\<open>trim()\<close>: the white space that ends this text, and nothing else, is
  removed.  So the last newline is never in the string, and neither is white space at the
  end of the last line; a trailing context line of an empty line, which is a lone space,
  goes with it, while a trailing \<open>+\<close> or \<open>-\<close> line of an empty line keeps its sign.
\<close>

theorem generateSimpleDiff_trimmed_walk:
  "generateSimpleDiff oldContent newContent
     = trim_end (unlines (spec_diff_lines oldContent newContent))"
  by (rule generateSimpleDiff_eq)

text \<open>
  Two instances.  In the spec's scenario, \<open>hello\<close> against \<open>hello world\<close>, both ended
  by a newline, the context line of the empty last line is trimmed away.  For \<open>a\<close>
  against \<open>a\<close> with a newline added, the empty new last line gives a final \<open>+\<close> line,
  which stays.
\<close>

theorem generateSimpleDiff_trimmed_walk_witness:
  "generateSimpleDiff ''hello\<newline>'' ''hello world\<newline>''
     = ''@@ -1,2 +1,2 @@\<newline>-hello\<newline>+hello world''
   \<and> generateSimpleDiff ''a'' ''a\<newline>'' = ''@@ -1,1 +1,2 @@\<newline> a\<newline>+''"
  using generateSimpleDiff_trimmed_walk [of "''hello\<newline>''" "''hello world\<newline>''"]
    generateSimpleDiff_trimmed_walk [of "''a''" "''a\<newline>''"]
  by (simp add: diff_eval)

text \<open>
  C8 as stated fails: for \<open>a\<close> and \<open>b\<close>, each ended by a newline, the walk emits
  \<open>-a\<close>, \<open>+b\<close> and the context line of the identical empty last lines, but the diff string
  holds neither that context line nor a final newline.
\<close>

theorem generateSimpleDiff_untrimmed_counterexample:
  "generateSimpleDiff ''a\<newline>'' ''b\<newline>'' \<noteq> unlines (spec_diff_lines ''a\<newline>'' ''b\<newline>'')
   \<and> split_nl (generateSimpleDiff ''a\<newline>'' ''b\<newline>'') \<noteq> spec_diff_lines ''a\<newline>'' ''b\<newline>''
   \<and> spec_diff_lines ''a\<newline>'' ''b\<newline>'' = [''@@ -1,2 +1,2 @@'', ''-a'', ''+b'', '' '']
   \<and> generateSimpleDiff ''a\<newline>'' ''b\<newline>'' = ''@@ -1,2 +1,2 @@\<newline>-a\<newline>+b''"
  by (simp add: generateSimpleDiff_eq diff_eval)

section \<open>Deleting a checkpoint\<close>

lemma fk_snapshots_delete: "fk_snapshots d \<Longrightarrow> fk_snapshots (delete_checkpoints_where P d)"
  by (auto simp: fk_snapshots_def delete_checkpoints_where_def Let_def)

text \<open>
  C2.  In a store whose snapshot rows all reference an existing checkpoint row (what the
  foreign key enforces), after \<open>deleteCheckpoint d cid\<close> no snapshot row has
  \<open>checkpointId = cid\<close>.
\<close>

theorem deleteCheckpoint_cascades:
  assumes "fk_snapshots d"
  shows "\<forall>f \<in> set (file_snapshots (deleteCheckpoint d cid)). checkpointId f \<noteq> cid"
proof
  fix f assume f: "f \<in> set (file_snapshots (deleteCheckpoint d cid))"
  then have fin: "f \<in> set (file_snapshots d)"
    and ng: "checkpointId f \<notin> c_id ` {c \<in> set (checkpoints d). c_id c = cid}"
    by (auto simp: deleteCheckpoint_def delete_checkpoints_where_def Let_def)
  from assms fin obtain c where "c \<in> set (checkpoints d)" "c_id c = checkpointId f"
    by (auto simp: fk_snapshots_def)
  with ng show "checkpointId f \<noteq> cid" by auto
qed

section \<open>Comparing two checkpoints\<close>


lemma map_of_map_set: "map_of (map_set m k v) = (map_of m)(k \<mapsto> v)"
  by (induction m k v rule: map_set.induct) (auto simp: fun_eq_iff)

lemma keys_map_set: "fst ` set (map_set m k v) = insert k (fst ` set m)"
  by (induction m k v rule: map_set.induct) auto

lemma distinct_map_set: "distinct (map fst m) \<Longrightarrow> distinct (map fst (map_set m k v))"
proof (induction m k v rule: map_set.induct)
  case (1 k v)
  show ?case by simp
next
  case (2 k' v' m k v)
  then show ?case using keys_map_set [of m k v] by auto
qed

lemma fold_map_set_keys:
  "fst ` set (fold (\<lambda>(k, v) m. map_set m k v) es m) = fst ` set es \<union> fst ` set m"
  by (induction es arbitrary: m) (simp_all add: keys_map_set split: prod.splits)

lemma fold_map_set_distinct:
  "distinct (map fst m) \<Longrightarrow> distinct (map fst (fold (\<lambda>(k, v) m. map_set m k v) es m))"
  by (induction es arbitrary: m) (auto simp: distinct_map_set split: prod.splits)

lemma fold_map_set_get:
  "map_of (fold (\<lambda>(k, v) m. map_set m k v) es m) k = Some v
     \<Longrightarrow> (k, v) \<in> set es \<or> map_of m k = Some v"
proof (induction es arbitrary: m)
  case Nil
  then show ?case by simp
next
  case (Cons e es)
  obtain k' v' where e: "e = (k', v')" by (cases e)
  from Cons.prems have "map_of (fold (\<lambda>(k, v) m. map_set m k v) es (map_set m k' v')) k = Some v"
    by (simp add: e)
  from Cons.IH [OF this] show ?case
    by (auto simp: e map_of_map_set split: if_splits)
qed

lemma keys_new_Map: "set (map_keys (new_Map es)) = fst ` set es"
  using fold_map_set_keys [of es "[]"] by (simp add: new_Map_def map_keys_def)

lemma distinct_new_Map: "distinct (map_keys (new_Map es))"
  using fold_map_set_distinct [of "[]" es] by (simp add: new_Map_def map_keys_def)

lemma get_new_Map: "map_get (new_Map es) k = Some v \<Longrightarrow> (k, v) \<in> set es"
  using fold_map_set_get [of es "[]" k v] by (simp add: new_Map_def map_get_def)

lemma dom_new_Map: "map_get (new_Map es) k \<noteq> None \<longleftrightarrow> k \<in> fst ` set es"
proof -
  have "map_get (new_Map es) k \<noteq> None \<longleftrightarrow> k \<in> set (map_keys (new_Map es))"
    by (simp add: map_get_def map_keys_def map_of_eq_None_iff)
  then show ?thesis by (simp only: keys_new_Map)
qed

lemma set_fold_set_add: "set (fold (\<lambda>x s. set_add s x) xs s) = set xs \<union> set s"
  by (induction xs arbitrary: s) (auto simp: set_add_def)

lemma distinct_fold_set_add: "distinct s \<Longrightarrow> distinct (fold (\<lambda>x s. set_add s x) xs s)"
  by (induction xs arbitrary: s) (auto simp: set_add_def)

lemma set_new_Set: "set (new_Set xs) = set xs"
  by (simp add: new_Set_def set_fold_set_add)

lemma distinct_new_Set: "distinct (new_Set xs)"
  by (simp add: new_Set_def distinct_fold_set_add)

lemma file_map_dom: "map_get (file_map d cid) p \<noteq> None \<longleftrightarrow> p \<in> filePath ` set (getFiles d cid)"
  unfolding file_map_def dom_new_Map by (simp add: image_image)

lemma file_map_get:
  "map_get (file_map d cid) p = Some f \<Longrightarrow> f \<in> set (getFiles d cid) \<and> filePath f = p"
  by (auto simp: file_map_def dest!: get_new_Map)

lemma set_all_paths:
  "set (all_paths d c p) = filePath ` set (getFiles d c) \<union> filePath ` set (getFiles d p)"
  by (simp add: all_paths_def set_new_Set file_map_def keys_new_Map image_image)

lemma distinct_all_paths: "distinct (all_paths d c p)"
  by (simp add: all_paths_def distinct_new_Set)

lemma diff_path_same: "diff_path m m p = []"
  by (simp add: diff_path_def split: option.splits)


text \<open>
  C5.  When both ids resolve, \<open>diffCheckpoints\<close> visits every file path of either
  checkpoint's loaded snapshot rows exactly once, in the order of the union set, and the
  change list is what the visits push: a path only in the current checkpoint gives one
  \<open>added\<close> change carrying the current size as \<open>sizeAfter\<close>; a path only in the previous
  one gives one \<open>deleted\<close> change carrying the previous size as \<open>sizeBefore\<close>; a path in
  both gives no change when the contents are identical and one \<open>modified\<close> change carrying
  the generated diff string when they differ; the summary counts the emitted changes by
  type.  The loaded rows are the checkpoint's rows with \<open>isDirectory = 0\<close>, and for a path
  stored twice in one checkpoint the later row stands for it.
\<close>

theorem diffCheckpoints_classifies:
  assumes "getCheckpointById d currentId = Some cur"
      and "getCheckpointById d previousId = Some prev"
  shows "\<exists>r. diffCheckpoints d currentId previousId = Inr r
     \<and> changes r = concat (map (diff_path (file_map d currentId) (file_map d previousId))
                               (all_paths d currentId previousId))
     \<and> distinct (all_paths d currentId previousId)
     \<and> set (all_paths d currentId previousId)
          = filePath ` set (getFiles d currentId) \<union> filePath ` set (getFiles d previousId)
     \<and> (\<forall>p. p \<in> filePath ` set (getFiles d currentId) \<and> p \<notin> filePath ` set (getFiles d previousId)
            \<longrightarrow> (\<exists>f ch. map_get (file_map d currentId) p = Some f
                  \<and> f \<in> set (getFiles d currentId) \<and> filePath f = p
                  \<and> diff_path (file_map d currentId) (file_map d previousId) p = [ch]
                  \<and> ch_type ch = added \<and> sizeAfter ch = Some (fsize f)))
     \<and> (\<forall>p. p \<notin> filePath ` set (getFiles d currentId) \<and> p \<in> filePath ` set (getFiles d previousId)
            \<longrightarrow> (\<exists>g ch. map_get (file_map d previousId) p = Some g
                  \<and> g \<in> set (getFiles d previousId) \<and> filePath g = p
                  \<and> diff_path (file_map d currentId) (file_map d previousId) p = [ch]
                  \<and> ch_type ch = deleted \<and> sizeBefore ch = Some (fsize g)))
     \<and> (\<forall>p. p \<in> filePath ` set (getFiles d currentId) \<and> p \<in> filePath ` set (getFiles d previousId)
            \<longrightarrow> (\<exists>f g. map_get (file_map d currentId) p = Some f
                  \<and> map_get (file_map d previousId) p = Some g
                  \<and> f \<in> set (getFiles d currentId) \<and> g \<in> set (getFiles d previousId)
                  \<and> filePath f = p \<and> filePath g = p
                  \<and> (content f = content g
                        \<longrightarrow> diff_path (file_map d currentId) (file_map d previousId) p = [])
                  \<and> (content f \<noteq> content g
                        \<longrightarrow> (\<exists>ch. diff_path (file_map d currentId) (file_map d previousId) p = [ch]
                              \<and> ch_type ch = modified
                              \<and> ch_diff ch = Some (generateSimpleDiff (opt_str_or (content g) [])
                                                                      (opt_str_or (content f) []))))))
     \<and> summary r = \<lparr>n_added = length (filter (\<lambda>c. ch_type c = added) (changes r)),
                     n_modified = length (filter (\<lambda>c. ch_type c = modified) (changes r)),
                     n_deleted = length (filter (\<lambda>c. ch_type c = deleted) (changes r))\<rparr>"
proof -
  let ?C = "file_map d currentId" and ?P = "file_map d previousId"
  obtain c cfs where c: "cur = (c, cfs)" by (cases cur)
  obtain q pfs where q: "prev = (q, pfs)" by (cases prev)
  define r where "r = (case diffCheckpoints d currentId previousId of Inr r \<Rightarrow> r)"
  have run: "diffCheckpoints d currentId previousId = Inr r"
    using assms by (simp add: r_def diffCheckpoints_def Let_def c q)
  have ch: "changes r = concat (map (diff_path ?C ?P) (all_paths d currentId previousId))"
    using assms by (simp add: r_def diffCheckpoints_def Let_def c q)
  have su: "summary r = \<lparr>n_added = length (filter (\<lambda>c. ch_type c = added) (changes r)),
                     n_modified = length (filter (\<lambda>c. ch_type c = modified) (changes r)),
                     n_deleted = length (filter (\<lambda>c. ch_type c = deleted) (changes r))\<rparr>"
    using assms by (simp add: r_def diffCheckpoints_def Let_def c q)
  have inC: "\<exists>f. map_get (file_map d i) p = Some f \<and> f \<in> set (getFiles d i) \<and> filePath f = p"
    if "p \<in> filePath ` set (getFiles d i)" for p i
    using that file_map_dom [of d i p] file_map_get [of d i p] by auto
  have outC: "map_get (file_map d i) p = None" if "p \<notin> filePath ` set (getFiles d i)" for p i
    using that file_map_dom [of d i p] by auto
  have A: "\<exists>f ch. map_get ?C p = Some f \<and> f \<in> set (getFiles d currentId) \<and> filePath f = p
                  \<and> diff_path ?C ?P p = [ch] \<and> ch_type ch = added \<and> sizeAfter ch = Some (fsize f)"
    if "p \<in> filePath ` set (getFiles d currentId)" "p \<notin> filePath ` set (getFiles d previousId)" for p
    using inC [OF that(1)] outC [OF that(2)] by (auto simp: diff_path_def)
  have D: "\<exists>g ch. map_get ?P p = Some g \<and> g \<in> set (getFiles d previousId) \<and> filePath g = p
                  \<and> diff_path ?C ?P p = [ch] \<and> ch_type ch = deleted \<and> sizeBefore ch = Some (fsize g)"
    if "p \<notin> filePath ` set (getFiles d currentId)" "p \<in> filePath ` set (getFiles d previousId)" for p
    using outC [OF that(1)] inC [OF that(2)] by (auto simp: diff_path_def)
  have M: "\<exists>f g. map_get ?C p = Some f \<and> map_get ?P p = Some g
                  \<and> f \<in> set (getFiles d currentId) \<and> g \<in> set (getFiles d previousId)
                  \<and> filePath f = p \<and> filePath g = p
                  \<and> (content f = content g \<longrightarrow> diff_path ?C ?P p = [])
                  \<and> (content f \<noteq> content g
                        \<longrightarrow> (\<exists>ch. diff_path ?C ?P p = [ch] \<and> ch_type ch = modified
                              \<and> ch_diff ch = Some (generateSimpleDiff (opt_str_or (content g) [])
                                                                      (opt_str_or (content f) []))))"
    if "p \<in> filePath ` set (getFiles d currentId)" "p \<in> filePath ` set (getFiles d previousId)" for p
  proof -
    from inC [OF that(1)] obtain f where f: "map_get ?C p = Some f" "f \<in> set (getFiles d currentId)" "filePath f = p" by blast
    from inC [OF that(2)] obtain g where g: "map_get ?P p = Some g" "g \<in> set (getFiles d previousId)" "filePath g = p" by blast
    have "content f = content g \<longrightarrow> diff_path ?C ?P p = []"
      using f(1) g(1) by (simp add: diff_path_def)
    moreover have "content f \<noteq> content g
                        \<longrightarrow> (\<exists>ch. diff_path ?C ?P p = [ch] \<and> ch_type ch = modified
                              \<and> ch_diff ch = Some (generateSimpleDiff (opt_str_or (content g) [])
                                                                      (opt_str_or (content f) [])))"
      using f(1) g(1) by (simp add: diff_path_def)
    ultimately show ?thesis using f g by blast
  qed
  show ?thesis
    apply (rule exI [of _ r])
    apply (intro conjI allI impI)
    apply (rule run)
    apply (rule ch)
    apply (rule distinct_all_paths)
    apply (rule set_all_paths)
    apply (erule conjE, erule (1) A)
    apply (erule conjE, erule (1) D)
    apply (erule conjE, erule (1) M)
    apply (rule su)
    done
qed


lemmas scenario_defs = scenario_db_def scenario_checkpoint_def scenario_file_def scenario_session_def

lemma scenario_B: "getCheckpointById scenario_db ''B''
  = Some (scenario_checkpoint ''B'' ''2024-01-01T00:02:00.000Z'' 2 16,
          [scenario_file 2 ''B'' ''x.txt'' ''hello world\<newline>'',
           scenario_file 3 ''B'' ''y.txt'' ''new\<newline>''])"
  by (simp add: getCheckpointById_def scenario_defs)

lemma scenario_A: "getCheckpointById scenario_db ''A''
  = Some (scenario_checkpoint ''A'' ''2024-01-01T00:01:00.000Z'' 1 6,
          [scenario_file 1 ''A'' ''x.txt'' ''hello\<newline>''])"
  by (simp add: getCheckpointById_def scenario_defs)

lemma scenario_map_B: "file_map scenario_db ''B''
  = [(''/p/x.txt'', scenario_file 2 ''B'' ''x.txt'' ''hello world\<newline>''),
     (''/p/y.txt'', scenario_file 3 ''B'' ''y.txt'' ''new\<newline>'')]"
  by (simp add: file_map_def getFiles_def new_Map_def scenario_defs)

lemma scenario_map_A: "file_map scenario_db ''A''
  = [(''/p/x.txt'', scenario_file 1 ''A'' ''x.txt'' ''hello\<newline>'')]"
  by (simp add: file_map_def getFiles_def new_Map_def scenario_defs)

lemma scenario_paths: "all_paths scenario_db ''B'' ''A'' = [''/p/x.txt'', ''/p/y.txt'']"
  by (simp add: all_paths_def scenario_map_A scenario_map_B map_keys_def new_Set_def set_add_def)


lemma scenario_get_Bx: "map_get (file_map scenario_db ''B'') ''/p/x.txt'' = Some (scenario_file 2 ''B'' ''x.txt'' ''hello world\<newline>'')"
  by (simp add: scenario_map_B map_get_def)
lemma scenario_get_By: "map_get (file_map scenario_db ''B'') ''/p/y.txt'' = Some (scenario_file 3 ''B'' ''y.txt'' ''new\<newline>'')"
  by (simp add: scenario_map_B map_get_def)
lemma scenario_get_Ax: "map_get (file_map scenario_db ''A'') ''/p/x.txt'' = Some (scenario_file 1 ''A'' ''x.txt'' ''hello\<newline>'')"
  by (simp add: scenario_map_A map_get_def)
lemma scenario_get_Ay: "map_get (file_map scenario_db ''A'') ''/p/y.txt'' = None"
  by (simp add: scenario_map_A map_get_def)

lemma scenario_diff_y: "diff_path (file_map scenario_db ''B'') (file_map scenario_db ''A'') ''/p/y.txt''
  = [\<lparr>ch_type = added, ch_file = ''y.txt'', ch_diff = None,
        sizeBefore = None, sizeAfter = Some 4\<rparr>]"
  by (simp add: diff_path_def scenario_get_By scenario_get_Ay scenario_file_def str_or_def)

lemma scenario_text_diff: "generateSimpleDiff ''hello\<newline>'' ''hello world\<newline>''
     = ''@@ -1,2 +1,2 @@\<newline>-hello\<newline>+hello world''"
  by (simp add: generateSimpleDiff_eq diff_eval)

lemma scenario_diff_x: "diff_path (file_map scenario_db ''B'') (file_map scenario_db ''A'') ''/p/x.txt''
  = [\<lparr>ch_type = modified, ch_file = ''x.txt'',
        ch_diff = Some ''@@ -1,2 +1,2 @@\<newline>-hello\<newline>+hello world'',
        sizeBefore = Some 6, sizeAfter = Some 12\<rparr>]"
  by (simp add: diff_path_def scenario_get_Bx scenario_get_Ax scenario_file_def str_or_def opt_str_or_def scenario_text_diff)


lemma scenario_changes:
  "concat (map (diff_path (file_map scenario_db ''B'') (file_map scenario_db ''A''))
     (all_paths scenario_db ''B'' ''A''))
   = [\<lparr>ch_type = modified, ch_file = ''x.txt'',
        ch_diff = Some ''@@ -1,2 +1,2 @@\<newline>-hello\<newline>+hello world'',
        sizeBefore = Some 6, sizeAfter = Some 12\<rparr>,
      \<lparr>ch_type = added, ch_file = ''y.txt'', ch_diff = None,
        sizeBefore = None, sizeAfter = Some 4\<rparr>]"
  by (simp add: scenario_paths scenario_diff_x scenario_diff_y)

text \<open>
  The scenario of the specification, through the theorem: comparing \<open>B\<close> with \<open>A\<close>
  reports exactly two changes, \<open>x.txt\<close> modified and \<open>y.txt\<close> added with
  \<open>sizeAfter = 4\<close>, and the summary one added, one modified, none deleted.
\<close>

theorem diffCheckpoints_classifies_witness:
  "getCheckpointById scenario_db ''B'' \<noteq> None \<and> getCheckpointById scenario_db ''A'' \<noteq> None
   \<and> (\<exists>r. diffCheckpoints scenario_db ''B'' ''A'' = Inr r
        \<and> changes r = [\<lparr>ch_type = modified, ch_file = ''x.txt'',
                          ch_diff = Some ''@@ -1,2 +1,2 @@\<newline>-hello\<newline>+hello world'',
                          sizeBefore = Some 6, sizeAfter = Some 12\<rparr>,
                        \<lparr>ch_type = added, ch_file = ''y.txt'', ch_diff = None,
                          sizeBefore = None, sizeAfter = Some 4\<rparr>]
        \<and> summary r = \<lparr>n_added = 1, n_modified = 1, n_deleted = 0\<rparr>)"
proof -
  have "\<exists>r. diffCheckpoints scenario_db ''B'' ''A'' = Inr r
    \<and> changes r = concat (map (diff_path (file_map scenario_db ''B'') (file_map scenario_db ''A''))
                               (all_paths scenario_db ''B'' ''A''))
    \<and> summary r = \<lparr>n_added = length (filter (\<lambda>c. ch_type c = added) (changes r)),
                     n_modified = length (filter (\<lambda>c. ch_type c = modified) (changes r)),
                     n_deleted = length (filter (\<lambda>c. ch_type c = deleted) (changes r))\<rparr>"
    using diffCheckpoints_classifies [OF scenario_B scenario_A]
    apply (elim exE conjE)
    apply (rule exI)
    apply (intro conjI)
      apply assumption+
    done
  then obtain r where r: "diffCheckpoints scenario_db ''B'' ''A'' = Inr r"
    "changes r = concat (map (diff_path (file_map scenario_db ''B'') (file_map scenario_db ''A''))
                               (all_paths scenario_db ''B'' ''A''))"
    "summary r = \<lparr>n_added = length (filter (\<lambda>c. ch_type c = added) (changes r)),
                     n_modified = length (filter (\<lambda>c. ch_type c = modified) (changes r)),
                     n_deleted = length (filter (\<lambda>c. ch_type c = deleted) (changes r))\<rparr>"
    by blast
  have c: "changes r = [\<lparr>ch_type = modified, ch_file = ''x.txt'',
                          ch_diff = Some ''@@ -1,2 +1,2 @@\<newline>-hello\<newline>+hello world'',
                          sizeBefore = Some 6, sizeAfter = Some 12\<rparr>,
                        \<lparr>ch_type = added, ch_file = ''y.txt'', ch_diff = None,
                          sizeBefore = None, sizeAfter = Some 4\<rparr>]"
    using r(2) by (simp only: scenario_changes)
  have s: "summary r = \<lparr>n_added = 1, n_modified = 1, n_deleted = 0\<rparr>"
    unfolding r(3) c by simp
  show ?thesis using r(1) c s by (simp add: scenario_A scenario_B)
qed




text \<open>
  C9.  For every existing checkpoint, comparing it with itself returns an empty change
  list and a summary of three zeros.
\<close>

theorem diffCheckpoints_self:
  assumes "getCheckpointById d cid = Some c"
  shows "\<exists>r. diffCheckpoints d cid cid = Inr r \<and> changes r = []
     \<and> n_added (summary r) = 0 \<and> n_modified (summary r) = 0 \<and> n_deleted (summary r) = 0"
  using assms by (cases c) (simp add: diffCheckpoints_def Let_def diff_path_same)

theorem diffCheckpoints_self_witness:
  "getCheckpointById scenario_db ''B'' \<noteq> None
   \<and> (\<exists>r. diffCheckpoints scenario_db ''B'' ''B'' = Inr r \<and> changes r = []
     \<and> n_added (summary r) = 0 \<and> n_modified (summary r) = 0 \<and> n_deleted (summary r) = 0)"
  using diffCheckpoints_self [OF scenario_B] by (simp add: scenario_B)


text \<open>
  C2 at the scenario store: its snapshot rows all reference a checkpoint row, and after
  deleting \<open>B\<close> no row of \<open>B\<close> is left while the row of \<open>A\<close> stays.
\<close>

lemma scenario_fk: "fk_snapshots scenario_db"
  by (simp add: fk_snapshots_def scenario_defs)

theorem deleteCheckpoint_cascades_witness:
  "fk_snapshots scenario_db
   \<and> ''B'' \<notin> checkpointId ` set (file_snapshots (deleteCheckpoint scenario_db ''B''))
   \<and> file_snapshots (deleteCheckpoint scenario_db ''B'')
       = [scenario_file 1 ''A'' ''x.txt'' ''hello\<newline>'']"
proof -
  have "file_snapshots (deleteCheckpoint scenario_db ''B'')
       = [scenario_file 1 ''A'' ''x.txt'' ''hello\<newline>'']"
    by (simp add: deleteCheckpoint_def delete_checkpoints_where_def scenario_defs)
  moreover have "''B'' \<notin> checkpointId ` set (file_snapshots (deleteCheckpoint scenario_db ''B''))"
    using deleteCheckpoint_cascades [OF scenario_fk, of "''B''"] by (metis imageE)
  ultimately show ?thesis using scenario_fk by (intro conjI)
qed

section \<open>Sessions and checkpoint creation\<close>

lemma createCheckpoint_no_files:
  "getProjectFiles e (s_projectPath session) = Some [] \<Longrightarrow> createCheckpoint e d session = (d, None)"
  by (simp add: createCheckpoint_def)

lemma update_sessions_tables [simp]:
  "checkpoints (update_sessions sid f d) = checkpoints d"
  "file_snapshots (update_sessions sid f d) = file_snapshots d"
  "next_rowid (update_sessions sid f d) = next_rowid d"
  by (simp_all add: update_sessions_def)

lemma store_getActiveSession [simp]: "store (fst (getActiveSession m p)) = store m"
  by (simp add: getActiveSession_def split: option.splits)

lemma store_load_session [simp]: "store (load_session e m data) = store m"
  by (simp add: load_session_def)

lemma latest_session_None: "latest_session xs = None \<longleftrightarrow> xs = []"
  by (induction xs) (auto split: option.splits)

lemma latest_session_mem: "latest_session xs = Some s \<Longrightarrow> s \<in> set xs"
  by (induction xs arbitrary: s) (auto split: option.splits if_splits)

lemma one_active_update:
  assumes pp: "\<And>s. s_projectPath (f s) = s_projectPath s"
      and oo: "\<And>s. sessionEndTime (f s) = None \<Longrightarrow> sessionEndTime s = None"
      and "one_active d"
  shows "one_active (update_sessions sid f d)"
proof -
  define g where "g = (\<lambda>s. if s_id s = sid then f s else s)"
  define opn where "opn = (\<lambda>s::Session. sessionEndTime s = None)"
  have g1: "s_projectPath (g s) = s_projectPath s" for s by (simp add: g_def pp)
  have g2: "opn (g s) \<Longrightarrow> opn s" for s
    unfolding g_def opn_def by (cases "s_id s = sid") (simp_all add: oo)
  have eq: "map s_projectPath (filter opn (map g xs))
              = map s_projectPath (filter (\<lambda>s. opn (g s)) (filter opn xs))" for xs
  proof (induction xs)
    case Nil
    show ?case by simp
  next
    case (Cons x xs)
    show ?case
    proof (cases "opn (g x)")
      case True
      then have "opn x" by (rule g2)
      with True Cons show ?thesis by (simp add: g1)
    next
      case False
      with Cons show ?thesis by simp
    qed
  qed
  have "distinct (map s_projectPath (filter opn (sessions d)))"
    using assms(3) by (simp add: one_active_def opn_def)
  then have "distinct (map s_projectPath (filter (\<lambda>s. opn (g s)) (filter opn (sessions d))))"
    by (rule distinct_map_filter)
  then have "distinct (map s_projectPath (filter opn (map g (sessions d))))"
    by (simp only: eq)
  then show ?thesis
    by (simp add: one_active_def update_sessions_def opn_def g_def)
qed

lemma one_active_insert:
  assumes "one_active d" and "active_sessions d (s_projectPath s) = []"
      and "insertSession d s = Inr d'"
  shows "one_active d'"
proof -
  from assms(3) have d': "sessions d' = sessions d @ [s]"
    by (auto simp: insertSession_def split: if_splits)
  from assms(2) have "s_projectPath s \<notin> s_projectPath ` {x \<in> set (sessions d). sessionEndTime x = None}"
    by (auto simp: active_sessions_def filter_empty_conv)
  with assms(1) show ?thesis
    by (auto simp: one_active_def d')
qed

lemma sessions_insertFile: "insertFile e d cid f = Inr d' \<Longrightarrow> sessions d' = sessions d"
  by (auto simp: insertFile_def split: if_splits)

lemma sessions_insertFiles: "sessions (fst (insertFiles e cid fs d)) = sessions d"
  by (induction fs arbitrary: d) (auto split: sum.splits dest: sessions_insertFile)

lemma sessions_insertCheckpoint: "insertCheckpoint d c = Inr d' \<Longrightarrow> sessions d' = sessions d"
  by (auto simp: insertCheckpoint_def split: if_splits)

lemma createCheckpoint_scan_fails:
  "getProjectFiles e (s_projectPath session) = None \<Longrightarrow> createCheckpoint e d session = (d, None)"
  by (simp add: createCheckpoint_def)

lemma createCheckpoint_insert_fails:
  "getProjectFiles e (s_projectPath session) = Some files
     \<Longrightarrow> insertCheckpoint d (checkpoint_row e session files) = Inl err
     \<Longrightarrow> createCheckpoint e d session = (d, None)"
  by (simp add: createCheckpoint_def)

lemma createCheckpoint_inserted:
  "getProjectFiles e (s_projectPath session) = Some files \<Longrightarrow> files \<noteq> []
     \<Longrightarrow> insertCheckpoint d (checkpoint_row e session files) = Inr d1
     \<Longrightarrow> insertFiles e (new_checkpoint_id e) files d1 = (d2, r)
     \<Longrightarrow> createCheckpoint e d session
           = (case r of
                Some err \<Rightarrow> (d2, None)
              | None \<Rightarrow>
                  if updateSession_throws e then (d2, None)
                  else (add_file_changes e (s_id session) (length files) d2,
                        Some (created_checkpoint e session files)))"
  by (simp add: createCheckpoint_def split: option.splits)

lemma one_active_createCheckpoint:
  assumes "one_active d"
  shows "one_active (fst (createCheckpoint e d session))"
proof (cases "getProjectFiles e (s_projectPath session)")
  case None
  with assms show ?thesis by (simp add: createCheckpoint_scan_fails)
next
  case (Some files)
  show ?thesis
  proof (cases "files = []")
    case True
    with Some assms show ?thesis by (simp add: createCheckpoint_no_files)
  next
    case False
    show ?thesis
    proof (cases "insertCheckpoint d (checkpoint_row e session files)")
      case (Inl err)
      with Some assms show ?thesis by (simp add: createCheckpoint_insert_fails)
    next
      case (Inr d1)
      then have s1: "sessions d1 = sessions d" by (rule sessions_insertCheckpoint)
      obtain d2 r where i: "insertFiles e (new_checkpoint_id e) files d1 = (d2, r)"
        by (cases "insertFiles e (new_checkpoint_id e) files d1")
      have s2: "sessions d2 = sessions d"
        using sessions_insertFiles [of e "new_checkpoint_id e" files d1] i s1 by simp
      then have o2: "one_active d2" using assms by (simp add: one_active_def)
      have o3: "one_active (add_file_changes e (s_id session) (length files) d2)"
        unfolding add_file_changes_def by (rule one_active_update [OF _ _ o2]) simp_all
      show ?thesis
        unfolding createCheckpoint_inserted [OF Some False Inr i]
        using o2 o3 by (cases r) simp_all
    qed
  qed
qed

lemma one_active_handleStop:
  assumes "one_active (store m)"
  shows "one_active (store (fst (handleStop e m data)))"
proof (cases "currentSession (load_session e m data)")
  case None
  with assms show ?thesis by (simp add: handleStop_def Let_def)
next
  case (Some session)
  obtain d1 c where c: "createCheckpoint e (store m) session = (d1, c)"
    by (cases "createCheckpoint e (store m) session")
  have "one_active d1" using one_active_createCheckpoint [OF assms, of e session] c by simp
  then have "one_active (end_session e (s_id session) d1)"
    unfolding end_session_def by (intro one_active_update) simp_all
  with Some c show ?thesis by (simp add: handleStop_def Let_def)
qed

lemma getActiveSession_None:
  "getActiveSession m p = (m1, None) \<Longrightarrow> m1 = m \<and> active_sessions (store m) p = []"
  by (auto simp: getActiveSession_def latest_session_None split: option.splits)

lemma getActiveSession_Some:
  "getActiveSession m p = (m1, Some s)
     \<Longrightarrow> store m1 = store m \<and> s \<in> set (active_sessions (store m) p)"
  by (auto simp: getActiveSession_def split: option.splits dest: latest_session_mem)

lemma one_active_handleUserPromptSubmit:
  assumes "one_active (store m)"
  shows "one_active (store (fst (handleUserPromptSubmit e m data)))"
proof -
  obtain m1 r where g: "getActiveSession m (event_projectPath e data) = (m1, r)"
    by (cases "getActiveSession m (event_projectPath e data)")
  show ?thesis
  proof (cases r)
    case None
    with g have m1: "m1 = m" and na: "active_sessions (store m) (event_projectPath e data) = []"
      using getActiveSession_None by blast+
    let ?s = "new_session e (event_projectPath e data) (basename e (event_projectPath e data))
                (extract_prompt data)"
    show ?thesis
    proof (cases "insertSession (store m) ?s")
      case (Inl err)
      with g None m1 assms show ?thesis by (simp add: handleUserPromptSubmit_def Let_def)
    next
      case (Inr d)
      have "one_active d"
        by (rule one_active_insert [OF assms _ Inr]) (simp add: na new_session_def)
      with g None m1 Inr show ?thesis by (simp add: handleUserPromptSubmit_def Let_def)
    qed
  next
    case (Some found)
    with g have st: "store m1 = store m" using getActiveSession_Some by blast
    have "one_active (update_sessions (s_id found) (refresh_row e (extract_prompt data)) (store m))"
      by (rule one_active_update [OF _ _ assms]) (simp_all add: refresh_row_def)
    with g Some st show ?thesis by (simp add: handleUserPromptSubmit_def Let_def)
  qed
qed

lemma one_active_handleClaudeEvent:
  assumes "one_active (store m)"
  shows "one_active (store (fst (handleClaudeEvent e m eventType data)))"
proof -
  consider "eventType = ''UserPromptSubmit''"
    | "eventType \<noteq> ''UserPromptSubmit''" "eventType = ''Stop''"
    | "eventType \<noteq> ''UserPromptSubmit''" "eventType \<noteq> ''Stop''" by blast
  then show ?thesis
  proof cases
    case 1
    have "fst (handleClaudeEvent e m eventType data) = fst (handleUserPromptSubmit e m data)"
      unfolding handleClaudeEvent_def using 1
      by (cases "handleUserPromptSubmit e m data") (simp split: sum.splits)
    then show ?thesis using one_active_handleUserPromptSubmit [OF assms] by simp
  next
    case 2
    have "fst (handleClaudeEvent e m eventType data) = fst (handleStop e m data)"
      unfolding handleClaudeEvent_def using 2
      by (cases "handleStop e m data") simp
    then show ?thesis using one_active_handleStop [OF assms] by simp
  next
    case 3
    then show ?thesis using assms by (simp add: handleClaudeEvent_def)
  qed
qed

lemma one_active_run_events:
  "one_active (store m) \<Longrightarrow> one_active (store (run_events m evs))"
proof (induction evs arbitrary: m)
  case Nil
  then show ?case by simp
next
  case (Cons ev evs)
  obtain e eventType data where ev: "ev = (e, eventType, data)" by (cases ev)
  show ?case
    unfolding ev run_events.simps
    by (rule Cons.IH) (rule one_active_handleClaudeEvent [OF Cons.prems])
qed


section \<open>The example runs\<close>


lemma basename_a: "basename (example_env t u fs th) ''/a'' = ''a''"
  by (simp add: example_env_def path_of_def)

lemma prompt_a: "extract_prompt (example_data p ''fix it'') = ''fix it''"
  by (simp add: extract_prompt_def example_data_def opt_str_or_def str_or_def)

lemma path_a: "event_projectPath e (example_data ''/a'' q) = ''/a''"
  by (simp add: event_projectPath_def example_data_def opt_str_or_def str_or_def)

lemma path_b: "event_projectPath e (example_data ''/b'' q) = ''/b''"
  by (simp add: event_projectPath_def example_data_def opt_str_or_def str_or_def)

lemma first_prompt_a:
  "handleUserPromptSubmit (example_env ''t1'' ''1'' [] (\<lambda>f. False)) new_manager
     (example_data ''/a'' ''fix it'') = (manager_a, Inr session_a)"
  by (simp add: handleUserPromptSubmit_def Let_def path_a prompt_a basename_a getActiveSession_def
      active_sessions_def new_manager_def empty_db_def insertSession_def manager_a_def session_a_def)


lemma example_env_fields [simp]:
  "now (example_env t u fs th) = t" "checkpoint_now (example_env t u fs th) = t"
  "session_suffix (example_env t u fs th) = u" "checkpoint_suffix (example_env t u fs th) = u"
  "process_cwd (example_env t u fs th) = ''/''"
  "getProjectFiles (example_env t u fs th) ''/a'' = Some fs"
  "insertFile_throws (example_env t u fs th) = th"
  "updateSession_throws (example_env t u fs th) = False"
  by (simp_all add: example_env_def)

lemma session_a_fields:
  "s_id session_a = ''session_1''" "s_projectPath session_a = ''/a''"
  "sessionEndTime session_a = None" "lastPrompt session_a = Some ''fix it''"
  by (simp_all add: session_a_def new_session_def)

lemma no_session_b: "active_sessions (store manager_a) ''/b'' = []"
  by (simp add: active_sessions_def manager_a_def empty_db_def session_a_fields)

lemma snapshot_rows_append:
  "snapshot_rows cid n (xs @ ys) = snapshot_rows cid n xs @ snapshot_rows cid (n + length xs) ys"
  by (induction xs arbitrary: n) simp_all

lemma length_snapshot_rows [simp]: "length (snapshot_rows cid n fs) = length fs"
  by (induction fs arbitrary: n) simp_all

lemma insertFiles_result:
  assumes "cid \<in> c_id ` set (checkpoints d)"
  shows "insertFiles e cid fs d =
     (d\<lparr>file_snapshots := file_snapshots d
            @ snapshot_rows cid (next_rowid d) (takeWhile (\<lambda>f. \<not> insertFile_throws e f) fs),
         next_rowid := next_rowid d + length (takeWhile (\<lambda>f. \<not> insertFile_throws e f) fs)\<rparr>,
      if \<forall>f \<in> set fs. \<not> insertFile_throws e f then None else Some WriteFailed)"
  using assms
proof (induction fs arbitrary: d)
  case Nil
  show ?case by simp
next
  case (Cons f fs)
  show ?case
  proof (cases "insertFile_throws e f")
    case True
    then show ?thesis by (simp add: insertFile_def)
  next
    case False
    let ?d' = "d\<lparr>file_snapshots := file_snapshots d @ [snapshot_row cid (next_rowid d) f],
                 next_rowid := next_rowid d + 1\<rparr>"
    have i: "insertFile e d cid f = Inr ?d'" using False Cons.prems by (simp add: insertFile_def)
    have c: "cid \<in> c_id ` set (checkpoints ?d')" using Cons.prems by simp
    have step: "insertFiles e cid (f # fs) d = insertFiles e cid fs ?d'"
      by (simp only: insertFiles.simps i sum.case)
    show ?thesis unfolding step Cons.IH [OF c] using False by simp
  qed
qed


section \<open>What createCheckpoint leaves in the store\<close>


lemma insertCheckpoint_ok:
  "c_id c \<notin> c_id ` set (checkpoints d) \<Longrightarrow> c_sessionId c \<in> s_id ` set (sessions d)
     \<Longrightarrow> insertCheckpoint d c = Inr (d\<lparr>checkpoints := checkpoints d @ [c]\<rparr>)"
  by (simp add: insertCheckpoint_def)

lemma checkpoint_row_ids [simp]:
  "c_id (checkpoint_row e session files) = new_checkpoint_id e"
  "c_sessionId (checkpoint_row e session files) = s_id session"
  "c_projectPath (checkpoint_row e session files) = s_projectPath session"
  by (simp_all add: checkpoint_row_def)

lemma add_file_changes_tables [simp]:
  "checkpoints (add_file_changes e sid n d) = checkpoints d"
  "file_snapshots (add_file_changes e sid n d) = file_snapshots d"
  by (simp_all add: add_file_changes_def)

lemma end_session_tables [simp]:
  "checkpoints (end_session e sid d) = checkpoints d"
  "file_snapshots (end_session e sid d) = file_snapshots d"
  by (simp_all add: end_session_def)



lemma createCheckpoint_fresh:
  assumes scan: "getProjectFiles e (s_projectPath session) = Some files" and ne: "files \<noteq> []"
      and fresh: "new_checkpoint_id e \<notin> c_id ` set (checkpoints d)"
      and sess: "s_id session \<in> s_id ` set (sessions d)"
  shows "createCheckpoint e d session =
     (if \<exists>f \<in> set files. insertFile_throws e f
      then (d\<lparr>checkpoints := checkpoints d @ [checkpoint_row e session files],
              file_snapshots := file_snapshots d
                 @ snapshot_rows (new_checkpoint_id e) (next_rowid d)
                     (takeWhile (\<lambda>f. \<not> insertFile_throws e f) files),
              next_rowid := next_rowid d
                 + length (takeWhile (\<lambda>f. \<not> insertFile_throws e f) files)\<rparr>,
            None)
      else if updateSession_throws e
      then (d\<lparr>checkpoints := checkpoints d @ [checkpoint_row e session files],
              file_snapshots := file_snapshots d
                 @ snapshot_rows (new_checkpoint_id e) (next_rowid d) files,
              next_rowid := next_rowid d + length files\<rparr>,
            None)
      else (add_file_changes e (s_id session) (length files)
              (d\<lparr>checkpoints := checkpoints d @ [checkpoint_row e session files],
                 file_snapshots := file_snapshots d
                    @ snapshot_rows (new_checkpoint_id e) (next_rowid d) files,
                 next_rowid := next_rowid d + length files\<rparr>),
            Some (created_checkpoint e session files)))"
proof -
  let ?d1 = "d\<lparr>checkpoints := checkpoints d @ [checkpoint_row e session files]\<rparr>"
  have i: "insertCheckpoint d (checkpoint_row e session files) = Inr ?d1"
    using fresh sess by (simp add: insertCheckpoint_ok)
  have c: "new_checkpoint_id e \<in> c_id ` set (checkpoints ?d1)" by simp
  note r = insertFiles_result [OF c, of e files]
  show ?thesis
  proof (cases "\<exists>f \<in> set files. insertFile_throws e f")
    case True
    then have nall: "\<not> (\<forall>f \<in> set files. \<not> insertFile_throws e f)" by blast
    show ?thesis
      unfolding createCheckpoint_inserted [OF scan ne i r] if_P [OF True] if_not_P [OF nall]
      by simp
  next
    case False
    then have all: "\<forall>f \<in> set files. \<not> insertFile_throws e f" by blast
    then have tw: "takeWhile (\<lambda>f. \<not> insertFile_throws e f) files = files"
      by (simp add: takeWhile_eq_all_conv)
    show ?thesis
      unfolding createCheckpoint_inserted [OF scan ne i r] if_not_P [OF False] if_P [OF all] tw
      by simp
  qed
qed







lemma rows_of_append:
  "rows_of (d\<lparr>file_snapshots := file_snapshots d @ rs\<rparr>) cid
     = rows_of d cid @ filter (\<lambda>r. checkpointId r = cid) rs"
  by (simp add: rows_of_def)



lemma filePath_snapshot_row [simp]: "filePath (snapshot_row cid n f) = fi_absolutePath f"
  by (simp add: snapshot_row_def)

lemma stop_env_facts:
  "getProjectFiles env_stop (s_projectPath session_a) = Some files_a"
  "getProjectFiles env_stop_failing (s_projectPath session_a) = Some files_a"
  "new_checkpoint_id env_stop = ''checkpoint_2''"
  "new_checkpoint_id env_stop_failing = ''checkpoint_2''"
  "insertFile_throws env_stop = (\<lambda>f. False)"
  "insertFile_throws env_stop_failing = (\<lambda>f. fi_relativePath f = ''y.txt'')"
  "updateSession_throws env_stop = False"
  "updateSession_throws env_stop_failing = False"
  by (simp_all add: env_stop_def env_stop_failing_def session_a_fields new_checkpoint_id_def)

lemma files_a_facts:
  "files_a \<noteq> []" "length files_a = 2"
  "map fi_absolutePath files_a = [''/a/x.txt'', ''/a/y.txt'']"
  "takeWhile (\<lambda>f. fi_relativePath f \<noteq> ''y.txt'') files_a = [example_file ''x.txt'' ''hello'']"
  "\<exists>f \<in> set files_a. fi_relativePath f = ''y.txt''"
  by (simp_all add: files_a_def example_file_def)

lemma manager_a_facts:
  "new_checkpoint_id env_stop \<notin> c_id ` set (checkpoints (store manager_a))"
  "new_checkpoint_id env_stop_failing \<notin> c_id ` set (checkpoints (store manager_a))"
  "s_id session_a \<in> s_id ` set (sessions (store manager_a))"
  "fk_snapshots (store manager_a)"
  "next_rowid (store manager_a) = 1"
  "currentSession manager_a = Some session_a"
  by (simp_all add: manager_a_def empty_db_def fk_snapshots_def)




section \<open>Stopping work\<close>

text \<open>
  C6, as amended.  When the scanner yields no file for the project path of the session that
  \<open>handleStop\<close> closes, \<open>handleStop\<close> returns nothing and the checkpoint and snapshot
  tables are as before.
\<close>

theorem handleStop_no_files:
  assumes "currentSession (load_session e m data) = Some session"
      and "getProjectFiles e (s_projectPath session) = Some []"
  shows "snd (handleStop e m data) = None
     \<and> checkpoints (store (fst (handleStop e m data))) = checkpoints (store m)
     \<and> file_snapshots (store (fst (handleStop e m data))) = file_snapshots (store m)"
  using assms by (simp add: handleStop_def Let_def createCheckpoint_no_files end_session_def)




lemma load_session_cached: "currentSession m = Some s \<Longrightarrow> load_session e m data = m"
  by (simp add: load_session_def)

text \<open>C6 at the session of project \<open>/a\<close>, when the project holds no file.\<close>

theorem handleStop_no_files_witness:
  "currentSession (load_session env_stop_empty manager_a (example_data ''/a'' '''')) = Some session_a
   \<and> getProjectFiles env_stop_empty (s_projectPath session_a) = Some []
   \<and> snd (handleStop env_stop_empty manager_a (example_data ''/a'' '''')) = None
   \<and> checkpoints (store (fst (handleStop env_stop_empty manager_a (example_data ''/a'' '''')))) = []
   \<and> file_snapshots (store (fst (handleStop env_stop_empty manager_a (example_data ''/a'' '''')))) = []"
proof -
  have l: "currentSession (load_session env_stop_empty manager_a (example_data ''/a'' '''')) = Some session_a"
    by (simp add: load_session_cached [OF manager_a_facts(6)] manager_a_facts(6))
  have g: "getProjectFiles env_stop_empty (s_projectPath session_a) = Some []"
    by (simp add: env_stop_empty_def session_a_fields)
  from handleStop_no_files [OF l g] l g show ?thesis
    by (simp add: manager_a_def empty_db_def)
qed

text \<open>
  C6 as stated fails: the nothing that is returned does not tell an empty project from an
  error.  For the open session of \<open>/a\<close>, a stop whose scan yields no file and a stop whose
  scan is rejected return the same value and leave the same manager.
\<close>

theorem handleStop_null_counterexample:
  "getProjectFiles env_stop_empty (s_projectPath session_a) = Some []
   \<and> getProjectFiles env_stop_rejected (s_projectPath session_a) = None
   \<and> snd (handleStop env_stop_empty manager_a (example_data ''/a'' '''')) = None
   \<and> snd (handleStop env_stop_rejected manager_a (example_data ''/a'' '''')) = None
   \<and> handleStop env_stop_rejected manager_a (example_data ''/a'' '''')
       = handleStop env_stop_empty manager_a (example_data ''/a'' '''')"
proof -
  have g: "getProjectFiles env_stop_empty (s_projectPath session_a) = Some []"
    by (simp add: env_stop_empty_def session_a_fields)
  have r: "getProjectFiles env_stop_rejected (s_projectPath session_a) = None"
    by (simp add: env_stop_rejected_def)
  have n: "now env_stop_rejected = now env_stop_empty"
    by (simp add: env_stop_rejected_def)
  have l: "load_session e manager_a (example_data ''/a'' '''') = manager_a" for e
    by (rule load_session_cached [OF manager_a_facts(6)])
  have he: "handleStop env_stop_empty manager_a (example_data ''/a'' '''')
      = (\<lparr>store = end_session env_stop_empty (s_id session_a) (store manager_a),
           currentSession = None\<rparr>, None)"
    by (simp add: handleStop_def Let_def l manager_a_facts(6) createCheckpoint_no_files [OF g])
  have hr: "handleStop env_stop_rejected manager_a (example_data ''/a'' '''')
      = (\<lparr>store = end_session env_stop_rejected (s_id session_a) (store manager_a),
           currentSession = None\<rparr>, None)"
    by (simp add: handleStop_def Let_def l manager_a_facts(6) createCheckpoint_scan_fails [OF r])
  have same: "end_session env_stop_rejected (s_id session_a) (store manager_a)
      = end_session env_stop_empty (s_id session_a) (store manager_a)"
    by (simp add: end_session_def n)
  have e1: "snd (handleStop env_stop_empty manager_a (example_data ''/a'' '''')) = None"
    unfolding he by simp
  have e2: "snd (handleStop env_stop_rejected manager_a (example_data ''/a'' '''')) = None"
    unfolding hr by simp
  have e3: "handleStop env_stop_rejected manager_a (example_data ''/a'' '''')
       = handleStop env_stop_empty manager_a (example_data ''/a'' '''')"
    unfolding he hr same by (rule refl)
  from g r e1 e2 e3 show ?thesis by (intro conjI)
qed

lemma handleStop_no_session:
  assumes "currentSession m = None"
      and "active_sessions (store m) (event_projectPath e data) = []"
  shows "handleStop e m data = (m, None)"
  using assms by (simp add: handleStop_def load_session_def getActiveSession_def)

lemma first_prompt_env_first:
  "handleUserPromptSubmit env_first new_manager (example_data ''/a'' ''fix it'')
     = (manager_a, Inr session_a)"
  unfolding env_first_def by (rule first_prompt_a)

lemma sessions_end_session:
  "sessions (end_session e sid d)
     = map (\<lambda>s. if s_id s = sid then s\<lparr>sessionEndTime := Some (now e), s_updatedAt := now e\<rparr> else s)
         (sessions d)"
  by (simp add: end_session_def update_sessions_def)

text \<open>
  C3 on the code.  A first prompt in project \<open>/a\<close> opens a session, which stays cached
  in \<open>currentSession\<close>.  A stop event then arrives for project \<open>/b\<close>, which has no
  active session.  \<open>handleStop\<close> does not return nothing: it uses the cached session,
  creates a checkpoint of project \<open>/a\<close> and closes the session row of \<open>/a\<close>.
\<close>

theorem handleStop_closes_cached_session:
  "handleUserPromptSubmit env_first new_manager (example_data ''/a'' ''fix it'')
     = (manager_a, Inr session_a)
   \<and> event_projectPath env_stop (example_data ''/b'' '''') = ''/b''
   \<and> active_sessions (store manager_a) ''/b'' = []
   \<and> snd (handleStop env_stop manager_a (example_data ''/b'' ''''))
       = Some (created_checkpoint env_stop session_a files_a)
   \<and> map c_projectPath (checkpoints (store (fst (handleStop env_stop manager_a (example_data ''/b'' '''')))))
       = [''/a'']
   \<and> map s_projectPath (sessions (store manager_a)) = [''/a'']
   \<and> map sessionEndTime (sessions (store manager_a)) = [None]
   \<and> map sessionEndTime (sessions (store (fst (handleStop env_stop manager_a (example_data ''/b'' '''')))))
       = [Some ''t2'']"
proof -
  note cc = createCheckpoint_fresh [OF stop_env_facts(1) files_a_facts(1)
      manager_a_facts(1) manager_a_facts(3)]
  have nothrow: "\<not> (\<exists>f \<in> set files_a. insertFile_throws env_stop f)"
    by (simp add: stop_env_facts)
  have noupd: "\<not> updateSession_throws env_stop"
    by (simp add: stop_env_facts)
  note cc' = cc [unfolded if_not_P [OF nothrow] if_not_P [OF noupd]]
  have hs: "handleStop env_stop manager_a (example_data ''/b'' '''')
    = (\<lparr>store = end_session env_stop (s_id session_a)
                 (fst (createCheckpoint env_stop (store manager_a) session_a)),
         currentSession = None\<rparr>,
       snd (createCheckpoint env_stop (store manager_a) session_a))"
    by (simp add: handleStop_def Let_def load_session_cached [OF manager_a_facts(6)]
        manager_a_facts(6) split: prod.splits)
  have r: "snd (handleStop env_stop manager_a (example_data ''/b'' ''''))
       = Some (created_checkpoint env_stop session_a files_a)"
    unfolding hs cc' by simp
  have c: "map c_projectPath (checkpoints (store (fst (handleStop env_stop manager_a (example_data ''/b'' '''')))))
       = [''/a'']"
    unfolding hs cc' by (simp add: manager_a_def empty_db_def session_a_fields)
  have e: "map sessionEndTime (sessions (store (fst (handleStop env_stop manager_a (example_data ''/b'' '''')))))
       = [Some ''t2'']"
    unfolding hs cc'
    by (simp add: sessions_end_session add_file_changes_def update_sessions_def manager_a_def
        empty_db_def session_a_fields env_stop_def)
  have s: "map s_projectPath (sessions (store manager_a)) = [''/a'']"
    "map sessionEndTime (sessions (store manager_a)) = [None]"
    by (simp_all add: manager_a_def empty_db_def session_a_fields)
  show ?thesis
    using first_prompt_env_first path_b [of env_stop "''''"] no_session_b r c e s by blast
qed


section \<open>One open session per project\<close>


lemma distinct_const_map:
  "distinct (map f xs) \<Longrightarrow> \<forall>x \<in> set xs. f x = c \<Longrightarrow> length xs \<le> 1"
  by (cases xs; cases "tl xs") auto

lemma active_sessions_filter:
  "active_sessions d p
     = filter (\<lambda>s. s_projectPath s = p) (filter (\<lambda>s. sessionEndTime s = None) (sessions d))"
  by (simp add: active_sessions_def conj_commute)

lemma one_active_length:
  assumes "one_active d"
  shows "length (active_sessions d p) \<le> 1"
proof -
  have "distinct (map s_projectPath (active_sessions d p))"
    unfolding active_sessions_filter using assms unfolding one_active_def
    by (rule distinct_map_filter)
  moreover have "\<forall>s \<in> set (active_sessions d p). s_projectPath s = p"
    by (simp add: active_sessions_def)
  ultimately show ?thesis by (rule distinct_const_map)
qed

lemma one_active_single:
  assumes "one_active d" and "s \<in> set (active_sessions d p)"
  shows "active_sessions d p = [s]"
proof -
  from one_active_length [OF assms(1), of p] assms(2) show ?thesis
    by (cases "active_sessions d p") auto
qed

lemma ids_update_sessions:
  assumes "\<And>s. s_id (f s) = s_id s"
  shows "map s_id (sessions (update_sessions sid f d)) = map s_id (sessions d)"
  by (simp add: update_sessions_def assms comp_def if_distrib [of s_id] cong: if_cong)

lemma active_update_sessions:
  assumes "\<And>s. s_projectPath (f s) = s_projectPath s"
      and "\<And>s. sessionEndTime (f s) = sessionEndTime s"
  shows "active_sessions (update_sessions sid f d) p
     = map (\<lambda>s. if s_id s = sid then f s else s) (active_sessions d p)"
proof -
  have "filter (\<lambda>s. s_projectPath s = p \<and> sessionEndTime s = None)
          (map (\<lambda>s. if s_id s = sid then f s else s) xs)
        = map (\<lambda>s. if s_id s = sid then f s else s)
            (filter (\<lambda>s. s_projectPath s = p \<and> sessionEndTime s = None) xs)" for xs
    by (induction xs) (simp_all add: assms)
  then show ?thesis by (simp add: active_sessions_def update_sessions_def)
qed

lemma refresh_row_keeps [simp]:
  "s_id (refresh_row e t s) = s_id s"
  "s_projectPath (refresh_row e t s) = s_projectPath s"
  "sessionEndTime (refresh_row e t s) = sessionEndTime s"
  "lastPrompt (refresh_row e t s) = Some t"
  "lastPromptTime (refresh_row e t s) = Some (now e)"
  by (simp_all add: refresh_row_def)

lemma handleUserPromptSubmit_active:
  assumes "active_sessions (store m) (event_projectPath e data) = [s]"
  shows "handleUserPromptSubmit e m data
     = (\<lparr>store = update_sessions (s_id s) (refresh_row e (extract_prompt data)) (store m),
          currentSession = Some (refresh_object e (extract_prompt data) s)\<rparr>,
        Inr (refresh_object e (extract_prompt data) s))"
  using assms by (simp add: handleUserPromptSubmit_def Let_def getActiveSession_def)

lemma refresh_in_place:
  assumes "one_active (store m)"
      and "s \<in> set (active_sessions (store m) (event_projectPath e data))"
  shows "\<exists>m' r. handleUserPromptSubmit e m data = (m', Inr r)
     \<and> map s_id (sessions (store m')) = map s_id (sessions (store m))
     \<and> active_sessions (store m') (event_projectPath e data)
           = [refresh_row e (extract_prompt data) s]"
proof -
  have a: "active_sessions (store m) (event_projectPath e data) = [s]"
    using assms by (rule one_active_single)
  have ids: "map s_id (sessions (update_sessions (s_id s) (refresh_row e (extract_prompt data)) (store m)))
     = map s_id (sessions (store m))"
    by (rule ids_update_sessions) simp
  have act: "active_sessions (update_sessions (s_id s) (refresh_row e (extract_prompt data)) (store m))
       (event_projectPath e data) = [refresh_row e (extract_prompt data) s]"
    by (subst active_update_sessions) (simp_all add: a)
  show ?thesis
    unfolding handleUserPromptSubmit_active [OF a] using ids act by simp
qed

text \<open>
  C4.  From a store in which every project path has at most one open session (the empty
  store of a new manager is one), after any sequence of events handled by
  \<open>handleClaudeEvent\<close> every project path still has at most one session row with
  \<open>sessionEndTime = None\<close>; and a prompt that arrives while the project has an open session
  creates no session row (the ids in the table are the same) and leaves that session as the
  project's one open session, with \<open>lastPrompt\<close> and \<open>lastPromptTime\<close> refreshed.
\<close>

theorem one_active_session_invariant:
  assumes "one_active (store m0)"
  shows "one_active (store (run_events m0 evs))
     \<and> (\<forall>p. length (active_sessions (store (run_events m0 evs)) p) \<le> 1)
     \<and> (\<forall>e data s. s \<in> set (active_sessions (store (run_events m0 evs)) (event_projectPath e data))
           \<longrightarrow> (\<exists>m' r. handleUserPromptSubmit e (run_events m0 evs) data = (m', Inr r)
                 \<and> map s_id (sessions (store m')) = map s_id (sessions (store (run_events m0 evs)))
                 \<and> active_sessions (store m') (event_projectPath e data)
                      = [refresh_row e (extract_prompt data) s]))"
proof -
  have inv: "one_active (store (run_events m0 evs))"
    using assms by (rule one_active_run_events)
  show ?thesis
    using inv one_active_length [OF inv] refresh_in_place [OF inv] by blast
qed



lemma one_active_new_manager: "one_active (store new_manager)"
  by (simp add: one_active_def new_manager_def empty_db_def)

lemma run_first_prompt:
  "run_events new_manager [(env_first, ''UserPromptSubmit'', example_data ''/a'' ''fix it'')]
     = manager_a"
  by (simp add: handleClaudeEvent_def first_prompt_env_first)

lemma session_a_active: "active_sessions (store manager_a) ''/a'' = [session_a]"
  by (simp add: active_sessions_def manager_a_def empty_db_def session_a_fields)

lemma prompt_more: "extract_prompt (example_data p ''and more'') = ''and more''"
  by (simp add: extract_prompt_def example_data_def opt_str_or_def str_or_def)

text \<open>
  C4 on a run: after the first prompt in \<open>/a\<close> the manager holds one open session; a
  second prompt in \<open>/a\<close> keeps the table at that one row and refreshes its prompt.
\<close>

theorem one_active_session_invariant_witness:
  "one_active (store new_manager)
   \<and> run_events new_manager [(env_first, ''UserPromptSubmit'', example_data ''/a'' ''fix it'')]
       = manager_a
   \<and> one_active (store manager_a)
   \<and> session_a \<in> set (active_sessions (store manager_a)
         (event_projectPath env_stop (example_data ''/a'' ''and more'')))
   \<and> (\<exists>m' r. handleUserPromptSubmit env_stop manager_a (example_data ''/a'' ''and more'') = (m', Inr r)
         \<and> map s_id (sessions (store m')) = [''session_1'']
         \<and> map lastPrompt (active_sessions (store m') ''/a'') = [Some ''and more'']
         \<and> map lastPromptTime (active_sessions (store m') ''/a'') = [Some ''t2''])"
proof -
  note th = one_active_session_invariant [OF one_active_new_manager,
      of "[(env_first, ''UserPromptSubmit'', example_data ''/a'' ''fix it'')]",
      unfolded run_first_prompt]
  from th have inv: "one_active (store manager_a)" by (rule conjunct1)
  have mem: "session_a \<in> set (active_sessions (store manager_a)
         (event_projectPath env_stop (example_data ''/a'' ''and more'')))"
    by (simp add: path_a session_a_active)
  from th have "\<forall>e data s. s \<in> set (active_sessions (store manager_a) (event_projectPath e data))
           \<longrightarrow> (\<exists>m' r. handleUserPromptSubmit e manager_a data = (m', Inr r)
                 \<and> map s_id (sessions (store m')) = map s_id (sessions (store manager_a))
                 \<and> active_sessions (store m') (event_projectPath e data)
                      = [refresh_row e (extract_prompt data) s])"
    by (elim conjE)
  with mem obtain m' r where
    r: "handleUserPromptSubmit env_stop manager_a (example_data ''/a'' ''and more'') = (m', Inr r)"
    "map s_id (sessions (store m')) = map s_id (sessions (store manager_a))"
    "active_sessions (store m') (event_projectPath env_stop (example_data ''/a'' ''and more''))
       = [refresh_row env_stop (extract_prompt (example_data ''/a'' ''and more'')) session_a]"
    by meson
  have ids: "map s_id (sessions (store m')) = [''session_1'']"
    using r(2) by (simp add: manager_a_def empty_db_def session_a_fields)
  have lp: "map lastPrompt (active_sessions (store m') ''/a'') = [Some ''and more'']"
    "map lastPromptTime (active_sessions (store m') ''/a'') = [Some ''t2'']"
    using r(3) by (simp_all add: path_a prompt_more env_stop_def)
  from r(1) ids lp
  have "\<exists>m' r. handleUserPromptSubmit env_stop manager_a (example_data ''/a'' ''and more'') = (m', Inr r)
         \<and> map s_id (sessions (store m')) = [''session_1'']
         \<and> map lastPrompt (active_sessions (store m') ''/a'') = [Some ''and more'']
         \<and> map lastPromptTime (active_sessions (store m') ''/a'') = [Some ''t2'']"
    by (intro exI conjI)
  with one_active_new_manager run_first_prompt inv mem show ?thesis by (intro conjI)
qed


section \<open>Restoring a checkpoint\<close>


lemma restore_file_fs: "fst (restore_file f (fs, n, errs)) = restore_fs f fs"
  by (simp add: restore_fs_def restore_file_def split: sum.splits option.splits)

lemma fold_restore_file_fs:
  "fst (fold restore_file files (fs, n, errs)) = fold restore_fs files fs"
proof (induction files arbitrary: fs n errs)
  case Nil
  show ?case by simp
next
  case (Cons f files)
  obtain fs1 n1 errs1 where st: "restore_file f (fs, n, errs) = (fs1, n1, errs1)"
    by (cases "restore_file f (fs, n, errs)")
  have "fs1 = restore_fs f fs" using restore_file_fs [of f fs n errs] st by simp
  then show ?case using Cons.IH [of fs1 n1 errs1] st by simp
qed

lemma restore_file_accounting:
  assumes "restore_file f (fs, n, errs) = (fs1, n1, errs1)"
  shows "n1 + length errs1 + null_rounds (f # files) fs
           = Suc (n + length errs + null_rounds files fs1)"
  using assms restore_file_fs [of f fs n errs]
  by (auto simp: restore_file_def split: sum.splits option.splits)

lemma fold_restore_accounting:
  "fold restore_file files (fs, n, errs) = (fs', n', errs')
     \<Longrightarrow> n' + length errs' + null_rounds files fs = n + length errs + length files"
proof (induction files arbitrary: fs n errs)
  case Nil
  then show ?case by simp
next
  case (Cons f files)
  obtain fs1 n1 errs1 where st: "restore_file f (fs, n, errs) = (fs1, n1, errs1)"
    by (cases "restore_file f (fs, n, errs)")
  from Cons.prems st have "fold restore_file files (fs1, n1, errs1) = (fs', n', errs')" by simp
  from Cons.IH [OF this] restore_file_accounting [OF st, of files] show ?case by simp
qed

lemma prefix_butlast_self: "p \<noteq> [] \<Longrightarrow> \<not> prefix p (butlast p)"
  by (metis butlast_snoc append_butlast_last_id length_append_singleton prefix_length_le
      not_less_eq_eq order_refl)

lemma mkdir_makes_dir: "mkdir fs d = Inr fs1 \<Longrightarrow> node_at fs1 d = Some Dir"
  by (auto simp: mkdir_def node_at_def split: if_splits)

lemma mkdir_keeps_file_path:
  "mkdir fs (dirname s) = Inr fs1 \<Longrightarrow> fs1 (path_of s) = fs (path_of s)"
  by (auto simp: mkdir_def dirname_def prefix_butlast_self split: if_splits)

lemma restore_file_null:
  assumes "content f = None" and "mkdir fs0 (dirname (filePath f)) = Inr fs1"
  shows "restore_file f (fs0, n, errs) = (fs1, n, errs)"
  using assms by (simp add: restore_file_def)



lemma restoreCheckpoint_found:
  assumes "getCheckpointById d cid = Some c"
  shows "\<exists>fs' r. restoreCheckpoint fs d cid = (fs', Inr r)
        \<and> fs' = fold restore_fs (getFiles d cid) fs
        \<and> totalFiles r = length (getFiles d cid)
        \<and> filesRestored r + length (errors r) + null_rounds (getFiles d cid) fs = totalFiles r"
proof -
  obtain row rows where c: "c = (row, rows)" by (cases c)
  obtain fs' n errs where f: "fold restore_file (getFiles d cid) (fs, 0, []) = (fs', n, errs)"
    by (cases "fold restore_file (getFiles d cid) (fs, 0, [])")
  have r: "restoreCheckpoint fs d cid
    = (fs', Inr \<lparr>filesRestored = n, totalFiles = length (getFiles d cid), errors = errs,
                  checkpoint = checkpoint_ref row\<rparr>)"
    using assms f by (simp add: restoreCheckpoint_def c)
  have "fs' = fold restore_fs (getFiles d cid) fs"
    using fold_restore_file_fs [of "getFiles d cid" fs 0 "[]"] f by simp
  moreover have "n + length errs + null_rounds (getFiles d cid) fs = length (getFiles d cid)"
    using fold_restore_accounting [OF f] by simp
  ultimately show ?thesis unfolding r by simp
qed

text \<open>
  C10.  In the restore loop, a loaded snapshot row whose stored content is \<^verbatim>\<open>null\<close> and
  whose directory can be made gets that directory, but nothing is written at its path,
  \<open>filesRestored\<close> is not incremented and nothing is added to \<open>errors\<close>.  The row is
  counted in \<open>totalFiles\<close> all the same: for an existing checkpoint, \<open>totalFiles\<close> is the
  number of loaded rows, and it equals \<open>filesRestored\<close> plus the number of errors plus the
  number of such rows.  So \<open>filesRestored + errors.length\<close> is below \<open>totalFiles\<close> as soon
  as there is one.
\<close>

theorem restore_skips_null_content:
  "(\<forall>f fs0 fs1 n errs.
       content f = None \<and> mkdir fs0 (dirname (filePath f)) = Inr fs1
       \<longrightarrow> restore_file f (fs0, n, errs) = (fs1, n, errs)
            \<and> node_at fs1 (dirname (filePath f)) = Some Dir
            \<and> fs1 (path_of (filePath f)) = fs0 (path_of (filePath f)))
   \<and> (\<forall>c. getCheckpointById d cid = Some c
       \<longrightarrow> (\<exists>fs' r. restoreCheckpoint fs d cid = (fs', Inr r)
              \<and> totalFiles r = length (getFiles d cid)
              \<and> filesRestored r + length (errors r) + null_rounds (getFiles d cid) fs
                   = totalFiles r))"
proof (intro conjI allI impI)
  fix f :: FileSnapshot and fs0 fs1 :: filesystem and n :: nat and errs :: "string list"
  assume a: "content f = None \<and> mkdir fs0 (dirname (filePath f)) = Inr fs1"
  then show "restore_file f (fs0, n, errs) = (fs1, n, errs)"
    by (simp add: restore_file_null)
  from a show "node_at fs1 (dirname (filePath f)) = Some Dir"
    by (blast intro: mkdir_makes_dir)
  from a show "fs1 (path_of (filePath f)) = fs0 (path_of (filePath f))"
    by (blast intro: mkdir_keeps_file_path)
next
  fix c assume "getCheckpointById d cid = Some c"
  from restoreCheckpoint_found [OF this, of fs]
  show "\<exists>fs' r. restoreCheckpoint fs d cid = (fs', Inr r)
              \<and> totalFiles r = length (getFiles d cid)
              \<and> filesRestored r + length (errors r) + null_rounds (getFiles d cid) fs
                   = totalFiles r"
    by blast
qed

lemma null_row_facts:
  "path_of (filePath null_row) = [''p'', ''n.txt'']"
  "dirname (filePath null_row) = [''p'']"
  "content null_row = None"
  "checkpointId null_row = ''N''" "isDirectory null_row = 0"
  by (simp_all add: null_row_def dirname_def path_of_def scenario_file_def)

lemma null_db_checkpoint:
  "getCheckpointById null_db ''N''
     = Some (scenario_checkpoint ''N'' ''2024-01-01T00:03:00.000Z'' 1 0, [null_row])"
  by (simp add: getCheckpointById_def null_db_def scenario_defs null_row_facts)

lemma null_db_files: "getFiles null_db ''N'' = [null_row]"
  by (simp add: getFiles_def null_db_def scenario_defs null_row_facts)

lemma mkdir_empty_p:
  "mkdir Map.empty [''p''] = Inr (\<lambda>q. if q \<noteq> [] \<and> prefix q [''p''] then Some Dir else None)"
  by (simp add: mkdir_def node_at_def is_file_def prefixes_snoc [of "[]", simplified])

lemma null_rounds_null_row: "null_rounds [null_row] Map.empty = 1"
  by (simp add: null_row_facts mkdir_empty_p)

lemma restore_fs_null_row:
  "restore_fs null_row Map.empty = (\<lambda>q. if q \<noteq> [] \<and> prefix q [''p''] then Some Dir else None)"
  by (simp add: restore_fs_def restore_file_def null_row_facts mkdir_empty_p)

text \<open>
  C10 at a checkpoint with one row of \<^verbatim>\<open>null\<close> content, restored into an empty file
  system: the directory appears, no file does, and the result reports no file restored and
  no error out of one file.
\<close>

theorem restore_skips_null_content_witness:
  "getCheckpointById null_db ''N'' \<noteq> None
   \<and> getFiles null_db ''N'' = [null_row]
   \<and> content null_row = None
   \<and> (\<exists>fs1. mkdir Map.empty (dirname (filePath null_row)) = Inr fs1)
   \<and> (\<exists>fs' r. restoreCheckpoint Map.empty null_db ''N'' = (fs', Inr r)
         \<and> totalFiles r = 1 \<and> filesRestored r = 0 \<and> errors r = []
         \<and> filesRestored r + length (errors r) < totalFiles r
         \<and> fs' [''p''] = Some Dir \<and> fs' [''p'', ''n.txt''] = None)"
proof -
  from restoreCheckpoint_found [OF null_db_checkpoint, of Map.empty]
  obtain fs' r where R: "restoreCheckpoint Map.empty null_db ''N'' = (fs', Inr r)"
    and F: "fs' = fold restore_fs (getFiles null_db ''N'') Map.empty"
    by (elim exE conjE)
  from restore_skips_null_content [of null_db "''N''" Map.empty]
  have "\<forall>c. getCheckpointById null_db ''N'' = Some c
       \<longrightarrow> (\<exists>fs' r. restoreCheckpoint Map.empty null_db ''N'' = (fs', Inr r)
              \<and> totalFiles r = length (getFiles null_db ''N'')
              \<and> filesRestored r + length (errors r) + null_rounds (getFiles null_db ''N'') Map.empty
                   = totalFiles r)"
    by (rule conjunct2)
  with null_db_checkpoint
  have "\<exists>fs' r. restoreCheckpoint Map.empty null_db ''N'' = (fs', Inr r)
              \<and> totalFiles r = length (getFiles null_db ''N'')
              \<and> filesRestored r + length (errors r) + null_rounds (getFiles null_db ''N'') Map.empty
                   = totalFiles r"
    by (elim allE [of _ "(scenario_checkpoint ''N'' ''2024-01-01T00:03:00.000Z'' 1 0, [null_row])"] impE)
  then have A: "totalFiles r = 1" "filesRestored r + length (errors r) + 1 = totalFiles r"
    unfolding R null_db_files null_rounds_null_row by simp_all
  then have Z: "filesRestored r = 0" "errors r = []" by simp_all
  have P: "fs' [''p''] = Some Dir" "fs' [''p'', ''n.txt''] = None"
    unfolding F null_db_files by (simp_all add: restore_fs_null_row)
  have M: "\<exists>fs1. mkdir Map.empty (dirname (filePath null_row)) = Inr fs1"
    by (simp add: null_row_facts mkdir_empty_p)
  have L: "filesRestored r + length (errors r) < totalFiles r" using A Z by simp
  have E: "\<exists>fs' r. restoreCheckpoint Map.empty null_db ''N'' = (fs', Inr r)
         \<and> totalFiles r = 1 \<and> filesRestored r = 0 \<and> errors r = []
         \<and> filesRestored r + length (errors r) < totalFiles r
         \<and> fs' [''p''] = Some Dir \<and> fs' [''p'', ''n.txt''] = None"
    using R A(1) Z L P by (intro exI conjI)
  have N: "getCheckpointById null_db ''N'' \<noteq> None" by (simp add: null_db_checkpoint)
  from N null_db_files null_row_facts(3) M E show ?thesis by (intro conjI)
qed


section \<open>Restoring twice\<close>


lemma node_at_made:
  "node_at (\<lambda>q. if q \<noteq> [] \<and> prefix q d then Some Dir else fs q) p
     = (if prefix p d then Some Dir else node_at fs p)"
  by (auto simp: node_at_def)



lemma kind_simps [simp]:
  "kind None = None" "kind (Some Dir) = Some Dir" "kind (Some (File c)) = Some (File [])"
  by (simp_all add: kind_def)





























subsection \<open>Two restores of the scenario\<close>

















end
